theory Spec2Isabelle
  imports Complex_Main "HOL-Library.Word" "HOL-Library.AList" "HOL-Library.Log_Nat"
begin

unbundle bit_operations_syntax

section \<open>Font faces: data model\<close>

text \<open>
  The embedding follows \<^verbatim>\<open>Source/Engine/UI/Font.cpp\<close> and its header.
  C++ \<^verbatim>\<open>short\<close> is a 16-bit word read through \<open>sint\<close>, \<^verbatim>\<open>unsigned\<close> and
  \<^verbatim>\<open>FT_UInt\<close> are 32-bit words, \<^verbatim>\<open>FT_ULong\<close> is a 64-bit word. C++ \<^verbatim>\<open>int\<close>
  values (point sizes, texture sizes, rectangle coordinates) stay far below the
  overflow range and are modelled as \<open>int\<close>. A \<^verbatim>\<open>HashMap\<close> is an association
  list with \<open>map_of\<close> for \<^verbatim>\<open>Find\<close>, \<open>AList.update\<close> for \<^verbatim>\<open>operator[]\<close>
  assignment and \<open>AList.delete\<close> for \<^verbatim>\<open>Erase\<close>.
\<close>

type_synonym short = "16 word"
type_synonym ushort = "16 word"
type_synonym unsigned = "32 word"
type_synonym FT_UInt = "32 word"
type_synonym FT_ULong = "64 word"
type_synonym byte = "8 word"

definition MIN_POINT_SIZE :: int where "MIN_POINT_SIZE = 6"
definition MAX_POINT_SIZE :: int where "MAX_POINT_SIZE = 48"
definition MAX_ASCII_CODE :: int where "MAX_ASCII_CODE = 127"
definition MIN_TEXTURE_SIZE :: int where "MIN_TEXTURE_SIZE = 128"
definition MAX_TEXTURE_SIZE :: int where "MAX_TEXTURE_SIZE = 2048"

record FontGlyph =
  x_' :: short
  y_' :: short
  width_' :: short
  height_' :: short
  offsetX_' :: short
  offsetY_' :: short
  advanceX_' :: short
  page_' :: unsigned

text \<open>One \<^verbatim>\<open>Texture2D::SetData\<close> call: level, x, y, width, height and the pixel data.\<close>

record SetDataCall =
  sd_level :: nat
  sd_x :: int
  sd_y :: int
  sd_width :: int
  sd_height :: int
  sd_data :: "byte list"

text \<open>
  A texture is the external sink of the spec: its size and the \<^verbatim>\<open>SetData\<close> calls it
  has received, most recent first.
\<close>

record Texture2D =
  tex_width :: int
  tex_height :: int
  tex_uploads :: "SetDataCall list"

record FontFace =
  pointSize_' :: int
  rowHeight_' :: int
  textures_' :: "Texture2D list"
  glyphMapping_' :: "(unsigned \<times> FontGlyph) list"
  kerningMapping_' :: "(unsigned \<times> short) list"

section \<open>FontFace::GetGlyph and FontFace::GetKerning\<close>

definition FontFace_GetGlyph :: "'a FontFace_scheme \<Rightarrow> unsigned \<Rightarrow> FontGlyph option" where
  "FontFace_GetGlyph f c = map_of (glyphMapping_' f) c"

text \<open>The key of a character pair, \<^verbatim>\<open>(c << 16) + d\<close> in 32-bit unsigned arithmetic.\<close>

definition kerning_key :: "unsigned \<Rightarrow> unsigned \<Rightarrow> unsigned" where
  "kerning_key c d = push_bit 16 c + d"

definition GetKerning :: "'a FontFace_scheme \<Rightarrow> unsigned \<Rightarrow> unsigned \<Rightarrow> short" where
  "GetKerning f c d =
     (if kerningMapping_' f = [] then 0
      else if c = 10 \<or> d = 10 then 0
      else (case map_of (kerningMapping_' f) (kerning_key c d) of
              Some amount \<Rightarrow> amount
            | None \<Rightarrow> 0))"

section \<open>FontFaceTTF::CalculateTextureSize: the maximum texture size\<close>

text \<open>
  The first statements of \<^verbatim>\<open>CalculateTextureSize\<close>, in the order of the source:
  both maxima start at \<^verbatim>\<open>MAX_TEXTURE_SIZE\<close>; \<^verbatim>\<open>/= 2\<close> is integer division.
\<close>

definition max_texture_size :: "int \<Rightarrow> int \<times> int" where
  "max_texture_size pointSize =
     (let maxTexWidth = MAX_TEXTURE_SIZE;
          maxTexHeight = MAX_TEXTURE_SIZE;
          maxTexWidth = (if pointSize < 32 then maxTexWidth div 2 else maxTexWidth);
          maxTexHeight = (if pointSize < 22 then maxTexHeight div 2 else maxTexHeight);
          maxTexWidth = (if pointSize < 16 then maxTexWidth div 2 else maxTexWidth);
          maxTexHeight = (if pointSize < 11 then maxTexHeight div 2 else maxTexHeight)
      in (maxTexWidth, maxTexHeight))"

text \<open>
  The tier table in the words of the specification: the width is halved below 16 and
  again below 11, the height is halved below 32 and again below 22.
\<close>

definition spec_max_texture_size :: "int \<Rightarrow> int \<times> int" where
  "spec_max_texture_size pointSize =
     (let maxTexWidth = MAX_TEXTURE_SIZE;
          maxTexHeight = MAX_TEXTURE_SIZE;
          maxTexWidth = (if pointSize < 16 then maxTexWidth div 2 else maxTexWidth);
          maxTexWidth = (if pointSize < 11 then maxTexWidth div 2 else maxTexWidth);
          maxTexHeight = (if pointSize < 32 then maxTexHeight div 2 else maxTexHeight);
          maxTexHeight = (if pointSize < 22 then maxTexHeight div 2 else maxTexHeight)
      in (maxTexWidth, maxTexHeight))"

section \<open>AreaAllocator\<close>

text \<open>
  Modelled from the spec: \<^verbatim>\<open>AreaAllocator\<close> (\<^verbatim>\<open>AreaAllocator.h\<close> is included by
  \<^verbatim>\<open>Font.cpp\<close> but is not among the sources) and the rectangle type it works on.
  From the specification: \<^verbatim>\<open>Allocate(width, height)\<close> returns a position or fails; it
  packs axis-aligned rectangles without overlap into a canvas that starts at a minimum
  size and may grow (doubling or extending) up to a hard maximum in each dimension; growth is
  attempted automatically when the rectangle does not fit within the current bounds;
  failure is returned only once the maximum canvas size is exhausted; nothing is ever
  deallocated. From the call sites in \<^verbatim>\<open>Font.cpp\<close>: the constructor takes the
  initial and the maximum width and height, and \<^verbatim>\<open>GetWidth\<close>/\<^verbatim>\<open>GetHeight\<close> return the
  current canvas size. The specification leaves the packing strategy open; the model
  keeps a list of free rectangles, places a request at the top-left corner of the first
  free rectangle that is large enough, and cuts the placed rectangle out of every free
  rectangle. When nothing fits it doubles the smaller dimension that can still grow, or
  extends it to its maximum when the double would exceed that.
\<close>

record IntRect =
  left_' :: int
  top_' :: int
  right_' :: int
  bottom_' :: int

record AreaAllocator =
  size_x :: int
  size_y :: int
  maxSize_x :: int
  maxSize_y :: int
  freeAreas_' :: "IntRect list"

definition AreaAllocator_new :: "int \<Rightarrow> int \<Rightarrow> int \<Rightarrow> int \<Rightarrow> AreaAllocator" where
  "AreaAllocator_new width height maxWidth maxHeight =
     \<lparr>size_x = width, size_y = height, maxSize_x = maxWidth, maxSize_y = maxHeight,
      freeAreas_' = [\<lparr>left_' = 0, top_' = 0, right_' = width, bottom_' = height\<rparr>]\<rparr>"

definition GetWidth :: "AreaAllocator \<Rightarrow> int" where "GetWidth a = size_x a"
definition GetHeight :: "AreaAllocator \<Rightarrow> int" where "GetHeight a = size_y a"

text \<open>Two rectangles overlap when they share a pixel; right and bottom are exclusive.\<close>

definition rect_overlap :: "IntRect \<Rightarrow> IntRect \<Rightarrow> bool" where
  "rect_overlap a b \<longleftrightarrow>
     max (left_' a) (left_' b) < min (right_' a) (right_' b)
     \<and> max (top_' a) (top_' b) < min (bottom_' a) (bottom_' b)"

definition SplitRect :: "IntRect \<Rightarrow> IntRect \<Rightarrow> IntRect list" where
  "SplitRect original reserve =
     (if rect_overlap original reserve then
        (if right_' reserve < right_' original
         then [original\<lparr>left_' := right_' reserve\<rparr>] else [])
        @ (if left_' original < left_' reserve
           then [original\<lparr>right_' := left_' reserve\<rparr>] else [])
        @ (if bottom_' reserve < bottom_' original
           then [original\<lparr>top_' := bottom_' reserve\<rparr>] else [])
        @ (if top_' original < top_' reserve
           then [original\<lparr>bottom_' := top_' reserve\<rparr>] else [])
      else [original])"

definition fits :: "int \<Rightarrow> int \<Rightarrow> IntRect \<Rightarrow> bool" where
  "fits width height r \<longleftrightarrow> width \<le> right_' r - left_' r \<and> height \<le> bottom_' r - top_' r"

definition can_grow_x :: "AreaAllocator \<Rightarrow> bool" where
  "can_grow_x a \<longleftrightarrow> 0 < size_x a \<and> size_x a < maxSize_x a"

definition can_grow_y :: "AreaAllocator \<Rightarrow> bool" where
  "can_grow_y a \<longleftrightarrow> 0 < size_y a \<and> size_y a < maxSize_y a"

definition grow_x :: "AreaAllocator \<Rightarrow> AreaAllocator" where
  "grow_x a =
     (let w = min (2 * size_x a) (maxSize_x a)
      in a\<lparr>size_x := w,
           freeAreas_' := freeAreas_' a @
             [\<lparr>left_' = size_x a, top_' = 0, right_' = w, bottom_' = size_y a\<rparr>]\<rparr>)"

definition grow_y :: "AreaAllocator \<Rightarrow> AreaAllocator" where
  "grow_y a =
     (let h = min (2 * size_y a) (maxSize_y a)
      in a\<lparr>size_y := h,
           freeAreas_' := freeAreas_' a @
             [\<lparr>left_' = 0, top_' = size_y a, right_' = size_x a, bottom_' = h\<rparr>]\<rparr>)"

function Allocate :: "AreaAllocator \<Rightarrow> int \<Rightarrow> int \<Rightarrow> (int \<times> int) option \<times> AreaAllocator" where
  "Allocate a width height =
     (case find (fits width height) (freeAreas_' a) of
        Some best \<Rightarrow>
          (let reserved = \<lparr>left_' = left_' best, top_' = top_' best,
                            right_' = left_' best + width, bottom_' = top_' best + height\<rparr>
           in (Some (left_' best, top_' best),
               a\<lparr>freeAreas_' := concat (map (\<lambda>r. SplitRect r reserved) (freeAreas_' a))\<rparr>))
      | None \<Rightarrow>
          (if can_grow_x a \<and> (size_x a \<le> size_y a \<or> \<not> can_grow_y a)
           then Allocate (grow_x a) width height
           else if can_grow_y a then Allocate (grow_y a) width height
           else (None, a)))"
  by pat_completeness auto
termination
  by (relation "measure (\<lambda>(a, w, h). nat (maxSize_x a - size_x a) + nat (maxSize_y a - size_y a))")
     (auto simp: can_grow_x_def can_grow_y_def grow_x_def grow_y_def Let_def)

declare Allocate.simps [simp del]


definition placed_rect :: "int \<times> int \<Rightarrow> int \<Rightarrow> int \<Rightarrow> IntRect" where
  "placed_rect p width height =
     \<lparr>left_' = fst p, top_' = snd p, right_' = fst p + width, bottom_' = snd p + height\<rparr>"

text \<open>
  A sequence of \<^verbatim>\<open>Allocate\<close> calls on one allocator instance: the rectangles of the
  successful calls, in call order.
\<close>

fun allocate_all :: "AreaAllocator \<Rightarrow> (int \<times> int) list \<Rightarrow> IntRect list" where
  "allocate_all a [] = []"
| "allocate_all a ((width, height) # reqs) =
     (case Allocate a width height of
        (None, a') \<Rightarrow> allocate_all a' reqs
      | (Some p, a') \<Rightarrow> placed_rect p width height # allocate_all a' reqs)"

fun pairwise_disjoint :: "IntRect list \<Rightarrow> bool" where
  "pairwise_disjoint [] = True"
| "pairwise_disjoint (r # rs) = (list_all (\<lambda>s. \<not> rect_overlap r s) rs \<and> pairwise_disjoint rs)"

section \<open>The outline rasterizer (FreeType) as seen by the font face\<close>

text \<open>
  FreeType is external. A face is modelled by what \<^verbatim>\<open>Font.cpp\<close> reads from it: the
  metrics, the enumeration of character codes (\<^verbatim>\<open>FT_Get_First_Char\<close> and
  \<^verbatim>\<open>FT_Get_Next_Char\<close>, as the list of pairs they yield; the enumeration ends with
  glyph index 0, that is, with the end of the list), the result of loading a glyph or a
  character (\<open>None\<close> is a FreeType error) and the kerning table. \<^verbatim>\<open>FT_Pos\<close> values are
  26.6 fixed point numbers, modelled as \<open>int\<close>; \<^verbatim>\<open>>> 6\<close> on them is \<open>div 64\<close>.
\<close>

datatype FT_Pixel_Mode = FT_PIXEL_MODE_MONO | FT_PIXEL_MODE_GRAY

datatype FT_Load_Flags = FT_LOAD_DEFAULT | FT_LOAD_RENDER

record FT_Glyph_Metrics =
  metrics_width :: int
  metrics_height :: int
  horiBearingX :: int
  horiBearingY :: int
  horiAdvance :: int

record FT_Bitmap =
  pixel_mode :: FT_Pixel_Mode
  pitch :: int
  buffer :: "byte list"

record FT_GlyphSlot =
  metrics :: FT_Glyph_Metrics
  bitmap :: FT_Bitmap

record FT_Face =
  face_height :: int
  y_scale :: int
  ascender :: int
  x_ppem :: ushort
  units_per_EM :: ushort
  FT_HAS_KERNING :: bool
  FT_Chars :: "(FT_ULong \<times> FT_UInt) list"
  FT_Load_Glyph :: "FT_UInt \<Rightarrow> FT_Load_Flags \<Rightarrow> FT_GlyphSlot option"
  FT_Load_Char :: "FT_ULong \<Rightarrow> FT_GlyphSlot option"
  FT_kern_length_ok :: bool
  FT_kern_table :: "byte list option"

text \<open>
  The engine around the face: whether the face has its font, whether a graphics
  subsystem exists, whether creating and filling the texture succeed, and
  \<^verbatim>\<open>FreeTypeLibrary::CreateFace\<close>. The last two fields are the memory that
  \<^verbatim>\<open>Load\<close> reads without having written it: the byte behind the array of the kerning
  table, and the values that the results of the reads from the table have before
  anything is copied into them, one for each read.
\<close>

record Engine =
  has_font :: bool
  has_graphics :: bool
  SetSize_ok :: "int \<Rightarrow> int \<Rightarrow> bool"
  SetData_ok :: bool
  CreateFace :: "byte list \<Rightarrow> int \<Rightarrow> FT_Face option"
  behind_kerningTable :: byte
  uninitialised_reads :: "nat \<Rightarrow> ushort"

section \<open>FontFaceTTF\<close>

record MutableFontGlyph = FontGlyph +
  charCode_' :: unsigned

text \<open>
  \<^verbatim>\<open>MutableFontGlyph\<close> objects live on the heap: \<open>mutableGlyphs\<close> maps an address to
  the object, \<open>mutableGlyphList\<close> holds the addresses with the most recently used at
  the head, \<open>mutableGlyphMapping_'\<close> maps a character code to the address of its cell.
  The \<^verbatim>\<open>iterator_\<close> of a glyph always designates the glyph's own node of the list, so
  \<^verbatim>\<open>mutableGlyphList.Erase(glyph->iterator_)\<close> is \<open>remove1\<close> of the address.
  \<open>ft_load_char_calls\<close> records the calls of \<^verbatim>\<open>FT_Load_Char\<close>, most recent first:
  these are the rasterizations of the dynamic cache.
\<close>

record FontFaceTTF = FontFace +
  face_' :: "FT_Face option"
  maxGlyphWidth_' :: int
  maxGlyphHeight_' :: int
  mutableGlyphList :: "nat list"
  mutableGlyphMapping_' :: "(unsigned \<times> nat) list"
  mutableGlyphs :: "nat \<Rightarrow> MutableFontGlyph"
  ft_load_char_calls :: "unsigned list"

text \<open>
  The constructor sets the point size and \<^verbatim>\<open>face_\<close>; the containers start empty. It
  leaves \<^verbatim>\<open>rowHeight_\<close>, \<^verbatim>\<open>maxGlyphWidth_\<close> and \<^verbatim>\<open>maxGlyphHeight_\<close> uninitialised:
  they keep the values of \<open>raw\<close>, the memory the object is built in.
\<close>

definition FontFaceTTF_new :: "int \<Rightarrow> FontFaceTTF \<Rightarrow> FontFaceTTF" where
  "FontFaceTTF_new pointSize raw =
     raw\<lparr>pointSize_' := pointSize, textures_' := [], glyphMapping_' := [],
         kerningMapping_' := [], face_' := None, mutableGlyphList := [],
         mutableGlyphMapping_' := [], ft_load_char_calls := []\<rparr>"

datatype LoadError =
    NoFont
  | ZeroOrNegativePointSize
  | FontNotLoaded
  | CouldNotCreateFace
  | AllocateAreaFailed
  | CouldNotCreateTexture
  | CouldNotGetKerningTableLength
  | CouldNotLoadKerningTable
  | VersionError
  | VersionOrCoverageError

subsection \<open>Glyph metrics and pixels\<close>

definition to_short :: "int \<Rightarrow> short" where
  "to_short v = word_of_int v"

text \<open>The five metric assignments that \<^verbatim>\<open>Load\<close> and \<^verbatim>\<open>GetGlyph\<close> share.\<close>

definition slot_metrics :: "FT_Face \<Rightarrow> FT_GlyphSlot \<Rightarrow> 'a FontGlyph_scheme \<Rightarrow> 'a FontGlyph_scheme" where
  "slot_metrics face slot glyph =
     glyph\<lparr>width_' := to_short (metrics_width (metrics slot) div 64),
           height_' := to_short (metrics_height (metrics slot) div 64),
           offsetX_' := to_short (horiBearingX (metrics slot) div 64),
           offsetY_' := to_short ((ascender face - horiBearingY (metrics slot)) div 64),
           advanceX_' := to_short (horiAdvance (metrics slot) div 64)\<rparr>"

text \<open>
  Reading the bitmap outside its buffer and writing outside the destination are
  undefined in the source; the model reads 0 and drops the write.
\<close>

definition src_byte :: "FT_Bitmap \<Rightarrow> int \<Rightarrow> byte" where
  "src_byte b i = (if 0 \<le> i \<and> i < int (length (buffer b)) then buffer b ! nat i else 0)"

definition bitmap_pixel :: "FT_Bitmap \<Rightarrow> int \<Rightarrow> int \<Rightarrow> byte" where
  "bitmap_pixel b h w =
     (if pixel_mode b = FT_PIXEL_MODE_MONO
      then (if src_byte b (pitch b * h + w div 8) AND drop_bit (nat (w mod 8)) 0x80 \<noteq> 0
            then 0xFF else 0x00)
      else src_byte b (pitch b * h + w))"

definition poke :: "byte list \<Rightarrow> int \<Rightarrow> byte \<Rightarrow> byte list" where
  "poke dest i v = (if 0 \<le> i \<and> i < int (length dest) then dest[nat i := v] else dest)"

text \<open>
  The two copy loops: row \<open>h\<close> of the bitmap goes to
  \<^verbatim>\<open>dest + stride * (h + y) + x\<close>, one byte per pixel.
\<close>

definition write_rows :: "FT_Bitmap \<Rightarrow> int \<Rightarrow> int \<Rightarrow> int \<Rightarrow> int \<Rightarrow> int \<Rightarrow> byte list \<Rightarrow> byte list" where
  "write_rows b stride x y width height dest =
     fold (\<lambda>h d. fold (\<lambda>w d. poke d (stride * (h + y) + x + w) (bitmap_pixel b h w))
                   [0..width - 1] d)
          [0..height - 1] dest"

subsection \<open>FontFaceTTF::CalculateTextureSize\<close>

text \<open>
  The sizing loop over the enumerated characters. Its state is \<^verbatim>\<open>loadAllGlyphs\<close>, the
  trial allocator and the face (for \<^verbatim>\<open>maxGlyphWidth_\<close> and \<^verbatim>\<open>maxGlyphHeight_\<close>).
\<close>

fun sizing_loop ::
  "FT_Face \<Rightarrow> (FT_ULong \<times> FT_UInt) list \<Rightarrow> bool \<times> AreaAllocator \<times> FontFaceTTF
     \<Rightarrow> bool \<times> AreaAllocator \<times> FontFaceTTF" where
  "sizing_loop face [] st = st"
| "sizing_loop face ((charCode, glyphIndex) # rest) (loadAllGlyphs, allocator, this) =
     (if glyphIndex = 0 then (loadAllGlyphs, allocator, this)
      else (case FT_Load_Glyph face glyphIndex FT_LOAD_DEFAULT of
              None \<Rightarrow> sizing_loop face rest (loadAllGlyphs, allocator, this)
            | Some slot \<Rightarrow>
                (let width = metrics_width (metrics slot) div 64;
                     height = metrics_height (metrics slot) div 64;
                     (loadAllGlyphs', allocator') =
                        (if loadAllGlyphs
                         then (case Allocate allocator (width + 1) (height + 1) of
                                 (None, a') \<Rightarrow> (False, a')
                               | (Some xy, a') \<Rightarrow> (True, a'))
                         else (loadAllGlyphs, allocator));
                     this' = this\<lparr>maxGlyphWidth_' := max (maxGlyphWidth_' this) (width + 1),
                                  maxGlyphHeight_' := max (maxGlyphHeight_' this) (height + 1)\<rparr>
                 in sizing_loop face rest (loadAllGlyphs', allocator', this'))))"

text \<open>The result is \<^verbatim>\<open>loadAllGlyphs\<close>, \<^verbatim>\<open>texWidth\<close>, \<^verbatim>\<open>texHeight\<close> and the face.\<close>

definition CalculateTextureSize :: "FT_Face \<Rightarrow> FontFaceTTF \<Rightarrow> bool \<times> int \<times> int \<times> FontFaceTTF" where
  "CalculateTextureSize face this =
     (let (maxTexWidth, maxTexHeight) = max_texture_size (pointSize_' this);
          allocator = AreaAllocator_new MIN_TEXTURE_SIZE MIN_TEXTURE_SIZE maxTexWidth maxTexHeight;
          (loadAllGlyphs, allocator', this') =
             sizing_loop face (FT_Chars face) (True, allocator, this)
      in (loadAllGlyphs, GetWidth allocator', GetHeight allocator', this'))"

subsection \<open>FontFaceTTF::Load: the population pass\<close>

record LoadState =
  ls_this :: FontFaceTTF
  ls_allocator :: AreaAllocator
  ls_texData :: "byte list"
  ls_glyphIndexToCharCodeMapping :: "(unsigned \<times> unsigned) list"

definition zero_glyph :: FontGlyph where
  "zero_glyph = \<lparr>x_' = 0, y_' = 0, width_' = 0, height_' = 0, offsetX_' = 0, offsetY_' = 0,
                 advanceX_' = 0, page_' = 0\<rparr>"

definition set_glyph :: "unsigned \<Rightarrow> FontGlyph \<Rightarrow> LoadState \<Rightarrow> LoadState" where
  "set_glyph key glyph st =
     st\<lparr>ls_this := (ls_this st)\<lparr>glyphMapping_' :=
           AList.update key glyph (glyphMapping_' (ls_this st))\<rparr>\<rparr>"

text \<open>
  The body of \<^verbatim>\<open>if (loadAllGlyphs || charCode < MAX_ASCII_CODE)\<close>: render the glyph,
  place it, copy its pixels and store it under the character code (an \<^verbatim>\<open>FT_ULong\<close>
  converted to the \<^verbatim>\<open>unsigned\<close> key of the map).
\<close>

definition load_glyph :: "FT_Face \<Rightarrow> int \<Rightarrow> FT_ULong \<Rightarrow> FT_UInt \<Rightarrow> LoadState \<Rightarrow> LoadError + LoadState" where
  "load_glyph face texWidth charCode glyphIndex st =
     (case FT_Load_Glyph face glyphIndex FT_LOAD_RENDER of
        Some slot \<Rightarrow>
          (let glyph = (slot_metrics face slot zero_glyph)\<lparr>page_' := 0\<rparr>
           in (case Allocate (ls_allocator st) (sint (width_' glyph) + 1) (sint (height_' glyph) + 1) of
                 (None, allocator') \<Rightarrow> Inl AllocateAreaFailed
               | (Some (x, y), allocator') \<Rightarrow>
                   (let glyph = glyph\<lparr>x_' := to_short x, y_' := to_short y\<rparr>;
                        texData =
                          (if 0 < sint (width_' glyph) \<and> 0 < sint (height_' glyph)
                           then write_rows (bitmap slot) texWidth (sint (x_' glyph)) (sint (y_' glyph))
                                  (sint (width_' glyph)) (sint (height_' glyph)) (ls_texData st)
                           else ls_texData st)
                    in Inr (set_glyph (ucast charCode) glyph
                              (st\<lparr>ls_allocator := allocator', ls_texData := texData\<rparr>)))))
      | None \<Rightarrow> Inr (set_glyph (ucast charCode) zero_glyph st))"

fun load_glyphs ::
  "FT_Face \<Rightarrow> bool \<Rightarrow> bool \<Rightarrow> int \<Rightarrow> (FT_ULong \<times> FT_UInt) list \<Rightarrow> LoadState \<Rightarrow> LoadError + LoadState" where
  "load_glyphs face loadAllGlyphs hasKerning texWidth [] st = Inr st"
| "load_glyphs face loadAllGlyphs hasKerning texWidth ((charCode, glyphIndex) # rest) st =
     (if glyphIndex = 0 then Inr st
      else (case (if loadAllGlyphs \<or> charCode < of_int MAX_ASCII_CODE
                  then load_glyph face texWidth charCode glyphIndex st
                  else Inr st) of
              Inl e \<Rightarrow> Inl e
            | Inr st' \<Rightarrow>
                load_glyphs face loadAllGlyphs hasKerning texWidth rest
                  (if hasKerning
                   then st'\<lparr>ls_glyphIndexToCharCodeMapping :=
                           AList.update glyphIndex (ucast charCode)
                             (ls_glyphIndexToCharCodeMapping st')\<rparr>
                   else st')))"

subsection \<open>FontFaceTTF::CreateFaceTexture\<close>

definition CreateFaceTexture :: "Engine \<Rightarrow> int \<Rightarrow> int \<Rightarrow> byte list \<Rightarrow> Texture2D option" where
  "CreateFaceTexture env texWidth texHeight texData =
     (if texWidth = 0 \<or> texHeight = 0 then None
      else if \<not> has_graphics env then None
      else if \<not> SetSize_ok env texWidth texHeight then None
      else if \<not> SetData_ok env then None
      else Some \<lparr>tex_width = texWidth, tex_height = texHeight,
                  tex_uploads = [\<lparr>sd_level = 0, sd_x = 0, sd_y = 0, sd_width = texWidth,
                                   sd_height = texHeight, sd_data = texData\<rparr>]\<rparr>)"

subsection \<open>FontFaceTTF::Load: the kerning table\<close>

text \<open>
  Modelled from the spec: \<^verbatim>\<open>MemoryBuffer\<close> with \<^verbatim>\<open>ReadUShort\<close> and \<^verbatim>\<open>ReadShort\<close>
  (the engine's deserializer, not among the sources). The specification has the table
  parsed, after the byte swap, as little-endian 16-bit words. \<^verbatim>\<open>Load\<close> tests no read
  and has no exit for a read at the end of the table: a read copies the bytes that
  remain, at most two, into its result and advances by the bytes copied. The bytes of
  the result that are not copied keep what the result held before, which nothing has
  written: the model takes that value from \<open>mb_uninitialised\<close>, at the number of the
  read, which \<open>mb_reads\<close> counts.
\<close>

record MemoryBuffer =
  mb_buffer :: "byte list"
  mb_position :: nat
  mb_reads :: nat
  mb_uninitialised :: "nat \<Rightarrow> ushort"

definition MemoryBuffer_new :: "(nat \<Rightarrow> ushort) \<Rightarrow> byte list \<Rightarrow> MemoryBuffer" where
  "MemoryBuffer_new uninitialised data =
     \<lparr>mb_buffer = data, mb_position = 0, mb_reads = 0, mb_uninitialised = uninitialised\<rparr>"

definition ReadUShort :: "MemoryBuffer \<Rightarrow> ushort \<times> MemoryBuffer" where
  "ReadUShort d =
     (let n = min 2 (length (mb_buffer d) - mb_position d);
          ret = mb_uninitialised d (mb_reads d);
          low = (if 1 \<le> n then mb_buffer d ! mb_position d else ucast ret);
          high = (if 2 \<le> n then mb_buffer d ! (mb_position d + 1) else ucast (drop_bit 8 ret))
      in (ucast low OR push_bit 8 (ucast high),
          d\<lparr>mb_position := mb_position d + n, mb_reads := mb_reads d + 1\<rparr>))"

definition ReadShort :: "MemoryBuffer \<Rightarrow> short \<times> MemoryBuffer" where
  "ReadShort d = ReadUShort d"

text \<open>
  The loop \<^verbatim>\<open>for (i = 0; i < kerningTableSize; i += 2) Swap(t[i], t[i + 1])\<close>. On a
  table of odd size the last swap exchanges the last byte with the byte behind the
  array, which is undefined in the source; the loop goes on to its end all the same.
  The model puts that byte, \<open>behind\<close>, in the last place of the table and does not follow
  the write behind the array.
\<close>

fun swap_bytes :: "byte \<Rightarrow> byte list \<Rightarrow> byte list" where
  "swap_bytes behind [] = []"
| "swap_bytes behind [a] = [behind]"
| "swap_bytes behind (a # b # rest) = b # a # swap_bytes behind rest"

text \<open>
  The arithmetic of \<^verbatim>\<open>float\<close>: IEEE 754 single precision, every operation rounded to
  the nearest value with a significand of 24 bits, ties to the even significand. A
  \<^verbatim>\<open>float\<close> is the rational number it denotes. \<open>float_exponent q\<close> is the \<open>e\<close> with
  \<open>2^e \<le> q < 2^(e + 1)\<close>, for positive \<open>q\<close>. The exponent is not bounded: the model
  has no subnormal numbers and no overflow, which the quotient of two 16-bit numbers and
  its product with a 16-bit number do not reach. A division by zero is an infinity or a
  NaN in the source, whose conversion to \<^verbatim>\<open>short\<close> is undefined; the model has the
  quotient 0.
\<close>

definition round_half_even :: "rat \<Rightarrow> int" where
  "round_half_even q =
     (let f = \<lfloor>q\<rfloor>; r = q - of_int f
      in if r < 1 / 2 then f else if 1 / 2 < r then f + 1 else if even f then f else f + 1)"

definition float_exponent :: "rat \<Rightarrow> int" where
  "float_exponent q =
     (let (a, b) = quotient_of q;
          e = int (floorlog 2 (nat a)) - int (floorlog 2 (nat b))
      in if power_int 2 e \<le> q then e else e - 1)"

definition round_float :: "rat \<Rightarrow> rat" where
  "round_float q =
     (if q = 0 then 0
      else (let ulp = power_int 2 (float_exponent \<bar>q\<bar> - 23)
            in of_int (round_half_even (q / ulp)) * ulp))"

definition float_of_int :: "int \<Rightarrow> rat" where
  "float_of_int i = round_float (of_int i)"

definition float_mul :: "rat \<Rightarrow> rat \<Rightarrow> rat" where
  "float_mul a b = round_float (a * b)"

definition float_div :: "rat \<Rightarrow> rat \<Rightarrow> rat" where
  "float_div a b = round_float (a / b)"

text \<open>
  \<^verbatim>\<open>float factor = face->size->metrics.x_ppem / (1.0f * face->units_per_EM)\<close>: both
  fields are unsigned 16-bit numbers, converted to \<^verbatim>\<open>float\<close>.
\<close>

definition kerning_factor :: "FT_Face \<Rightarrow> rat" where
  "kerning_factor face =
     float_div (float_of_int (uint (x_ppem face)))
       (float_mul 1 (float_of_int (uint (units_per_EM face))))"

text \<open>
  \<^verbatim>\<open>(short)(deserializer.ReadShort() * factor)\<close>: the value read is converted to
  \<^verbatim>\<open>float\<close>, the product is a \<^verbatim>\<open>float\<close>, and the conversion to \<^verbatim>\<open>short\<close> truncates
  towards zero. A product outside the range of \<^verbatim>\<open>short\<close> is undefined in the source;
  the model keeps the low 16 bits.
\<close>

definition truncate_toward_zero :: "rat \<Rightarrow> int" where
  "truncate_toward_zero q = (if 0 \<le> q then \<lfloor>q\<rfloor> else \<lceil>q\<rceil>)"

definition scale_amount :: "short \<Rightarrow> rat \<Rightarrow> short" where
  "scale_amount v factor =
     to_short (truncate_toward_zero (float_mul (float_of_int (sint v)) factor))"

text \<open>\<^verbatim>\<open>glyphIndexToCharCodeMapping[index]\<close>: a missing index yields the default 0.\<close>

definition char_code_of :: "(unsigned \<times> unsigned) list \<Rightarrow> ushort \<Rightarrow> unsigned" where
  "char_code_of glyphIndexToCharCodeMapping glyphIndex =
     (case map_of glyphIndexToCharCodeMapping (ucast glyphIndex) of
        Some charCode \<Rightarrow> charCode
      | None \<Rightarrow> 0)"

text \<open>The loop over the pairs of a subtable: the buffer and the kerning map after it.\<close>

fun read_pairs ::
  "nat \<Rightarrow> rat \<Rightarrow> (unsigned \<times> unsigned) list \<Rightarrow> MemoryBuffer \<Rightarrow> (unsigned \<times> short) list
     \<Rightarrow> MemoryBuffer \<times> (unsigned \<times> short) list" where
  "read_pairs 0 factor gi d km = (d, km)"
| "read_pairs (Suc n) factor gi d km =
     (let (leftGlyphIndex, d1) = ReadUShort d;
          (rightGlyphIndex, d2) = ReadUShort d1;
          (v, d3) = ReadShort d2;
          amount = scale_amount v factor
      in read_pairs n factor gi d3
           (if amount \<noteq> 0
            then AList.update
                   (kerning_key (char_code_of gi leftGlyphIndex) (char_code_of gi rightGlyphIndex))
                   amount km
            else km))"

text \<open>
  The loop over the subtables; its only exit with an error is the test of version and
  coverage.
\<close>

fun read_tables ::
  "nat \<Rightarrow> rat \<Rightarrow> (unsigned \<times> unsigned) list \<Rightarrow> MemoryBuffer \<Rightarrow> (unsigned \<times> short) list
     \<Rightarrow> LoadError + MemoryBuffer \<times> (unsigned \<times> short) list" where
  "read_tables 0 factor gi d km = Inr (d, km)"
| "read_tables (Suc n) factor gi d km =
     (let (version, d1) = ReadUShort d;
          (len, d2) = ReadUShort d1;
          (coverage, d3) = ReadUShort d2
      in if version = 0 \<and> coverage = 1
         then (let (numPairs, d4) = ReadUShort d3;
                   (d5, km') = read_pairs (unat numPairs) factor gi d4 km
               in read_tables n factor gi d5 km')
         else Inl VersionOrCoverageError)"

text \<open>The block \<^verbatim>\<open>if (hasKerning) { ... }\<close> of \<^verbatim>\<open>Load\<close>.\<close>

definition build_kerning ::
  "Engine \<Rightarrow> FT_Face \<Rightarrow> (unsigned \<times> unsigned) list \<Rightarrow> FontFaceTTF \<Rightarrow> LoadError + FontFaceTTF" where
  "build_kerning env face gi this =
     (if \<not> FT_kern_length_ok face then Inl CouldNotGetKerningTableLength
      else (case FT_kern_table face of
              None \<Rightarrow> Inl CouldNotLoadKerningTable
            | Some kerningTable \<Rightarrow>
                (let deserializer = MemoryBuffer_new (uninitialised_reads env)
                                      (swap_bytes (behind_kerningTable env) kerningTable);
                     (version, d1) = ReadUShort deserializer
                 in if version \<noteq> 0 then Inl VersionError
                    else (let factor = kerning_factor face;
                              (numTables, d2) = ReadUShort d1
                          in (case read_tables (unat numTables) factor gi d2
                                     (kerningMapping_' this) of
                                Inl e \<Rightarrow> Inl e
                              | Inr (d3, km) \<Rightarrow> Inr (this\<lparr>kerningMapping_' := km\<rparr>))))))"

subsection \<open>FontFaceTTF::Load: the cells of the dynamic cache\<close>

text \<open>
  \<^verbatim>\<open>while (allocator.Allocate(maxGlyphWidth_, maxGlyphHeight_, x, y))\<close>: each cell is a
  new heap object, at the first address not yet in the list, pushed to the front. The
  loop ends when the allocator fails; a loop that never ends is \<open>None\<close>.
\<close>

partial_function (option) allocate_mutable_glyphs ::
  "AreaAllocator \<Rightarrow> FontFaceTTF \<Rightarrow> FontFaceTTF option" where
  "allocate_mutable_glyphs allocator this =
     (case Allocate allocator (maxGlyphWidth_' this) (maxGlyphHeight_' this) of
        (None, allocator') \<Rightarrow> Some this
      | (Some (x, y), allocator') \<Rightarrow>
          allocate_mutable_glyphs allocator'
            (this\<lparr>mutableGlyphs := (mutableGlyphs this)
                     (length (mutableGlyphList this) :=
                        (mutableGlyphs this (length (mutableGlyphList this)))
                          \<lparr>x_' := to_short x, y_' := to_short y, page_' := 0, charCode_' := 0\<rparr>),
                  mutableGlyphList := length (mutableGlyphList this) # mutableGlyphList this\<rparr>))"

subsection \<open>FontFaceTTF::Load\<close>

text \<open>
  From the creation of the face to \<^verbatim>\<open>textures_.Push(texture)\<close>: the result is
  \<^verbatim>\<open>loadAllGlyphs\<close>, the state of the population pass and the face.
\<close>

definition Load_glyphs_and_texture ::
  "Engine \<Rightarrow> FT_Face \<Rightarrow> FontFaceTTF \<Rightarrow> LoadError + bool \<times> LoadState \<times> FontFaceTTF" where
  "Load_glyphs_and_texture env face this0 =
     (let this1 = this0\<lparr>face_' := Some face,
                       rowHeight_' := (face_height face * (y_scale face div 64)) div 65536\<rparr>;
          (loadAllGlyphs, texWidth, texHeight, this2) = CalculateTextureSize face this1;
          texData = replicate (nat (texWidth * texHeight)) 0;
          hasKerning = FT_HAS_KERNING face;
          allocator = AreaAllocator_new texWidth texHeight texWidth texHeight
      in (case load_glyphs face loadAllGlyphs hasKerning texWidth (FT_Chars face)
                 \<lparr>ls_this = this2, ls_allocator = allocator, ls_texData = texData,
                  ls_glyphIndexToCharCodeMapping = []\<rparr> of
            Inl e \<Rightarrow> Inl e
          | Inr st \<Rightarrow>
              (case CreateFaceTexture env texWidth texHeight (ls_texData st) of
                 None \<Rightarrow> Inl CouldNotCreateTexture
               | Some texture \<Rightarrow>
                   Inr (loadAllGlyphs, st,
                        (ls_this st)\<lparr>textures_' := textures_' (ls_this st) @ [texture]\<rparr>))))"

text \<open>The rest of \<^verbatim>\<open>Load\<close>: the kerning table, then the cells of the dynamic cache.\<close>

definition Load_face :: "Engine \<Rightarrow> FT_Face \<Rightarrow> FontFaceTTF \<Rightarrow> (LoadError + FontFaceTTF) option" where
  "Load_face env face this0 =
     (case Load_glyphs_and_texture env face this0 of
        Inl e \<Rightarrow> Some (Inl e)
      | Inr (loadAllGlyphs, st, this3) \<Rightarrow>
          (case (if FT_HAS_KERNING face
                 then build_kerning env face (ls_glyphIndexToCharCodeMapping st) this3
                 else Inr this3) of
             Inl e \<Rightarrow> Some (Inl e)
           | Inr this4 \<Rightarrow>
               (if \<not> loadAllGlyphs
                then map_option Inr (allocate_mutable_glyphs (ls_allocator st) this4)
                else Some (Inr this4))))"

definition Load :: "Engine \<Rightarrow> FontFaceTTF \<Rightarrow> byte list \<Rightarrow> (LoadError + FontFaceTTF) option" where
  "Load env this fontData =
     (if \<not> has_font env then Some (Inl NoFont)
      else if pointSize_' this \<le> 0 then Some (Inl ZeroOrNegativePointSize)
      else if length fontData = 0 then Some (Inl FontNotLoaded)
      else (case CreateFace env fontData (pointSize_' this) of
              None \<Rightarrow> Some (Inl CouldNotCreateFace)
            | Some face \<Rightarrow> Load_face env face this))"

subsection \<open>FontFaceTTF::GetGlyph\<close>

text \<open>
  \<^verbatim>\<open>textures_[0]->SetData(...)\<close>; the source does not look at the result. With no
  texture the access is undefined and the model leaves the list alone.
\<close>

definition SetData :: "SetDataCall \<Rightarrow> Texture2D list \<Rightarrow> Texture2D list" where
  "SetData call ts =
     (case ts of
        [] \<Rightarrow> []
      | t # rest \<Rightarrow> t\<lparr>tex_uploads := call # tex_uploads t\<rparr> # rest)"

text \<open>
  The result is the glyph the returned pointer designates, as it is at the return, and
  the face after the call. A face without \<^verbatim>\<open>face_\<close> has no cells, so the \<open>None\<close> case
  of \<open>face_'\<close> below is never reached after \<^verbatim>\<open>Load\<close>; the model returns null there.
\<close>

definition GetGlyph :: "FontFaceTTF \<Rightarrow> unsigned \<Rightarrow> FontGlyph option \<times> FontFaceTTF" where
  "GetGlyph this c =
     (if mutableGlyphList this = [] \<or> c \<le> of_int MAX_ASCII_CODE
      then (FontFace_GetGlyph this c, this)
      else (case map_of (mutableGlyphMapping_' this) c of
              Some p \<Rightarrow>
                (Some (FontGlyph.truncate (mutableGlyphs this p)),
                 this\<lparr>mutableGlyphList := p # remove1 p (mutableGlyphList this)\<rparr>)
            | None \<Rightarrow>
                (case face_' this of
                   None \<Rightarrow> (None, this)
                 | Some face \<Rightarrow>
                     (case FT_Load_Char face (ucast c) of
                        None \<Rightarrow> (None, this\<lparr>ft_load_char_calls := c # ft_load_char_calls this\<rparr>)
                      | Some slot \<Rightarrow>
                          (let p = last (mutableGlyphList this);
                               old = mutableGlyphs this p;
                               mapping1 = (if charCode_' old \<noteq> 0
                                           then AList.delete (charCode_' old) (mutableGlyphMapping_' this)
                                           else mutableGlyphMapping_' this);
                               glyph = slot_metrics face slot (old\<lparr>charCode_' := c\<rparr>);
                               data = write_rows (bitmap slot) (maxGlyphWidth_' this) 0 0
                                        (sint (width_' glyph)) (sint (height_' glyph))
                                        (replicate (nat (maxGlyphWidth_' this * maxGlyphHeight_' this)) 0)
                           in (Some (FontGlyph.truncate glyph),
                               this\<lparr>mutableGlyphList := p # remove1 p (mutableGlyphList this),
                                    mutableGlyphMapping_' := AList.update c p mapping1,
                                    mutableGlyphs := (mutableGlyphs this)(p := glyph),
                                    textures_' := SetData
                                       \<lparr>sd_level = 0, sd_x = sint (x_' glyph), sd_y = sint (y_' glyph),
                                        sd_width = maxGlyphWidth_' this,
                                        sd_height = maxGlyphHeight_' this, sd_data = data\<rparr>
                                       (textures_' this),
                                    ft_load_char_calls := c # ft_load_char_calls this\<rparr>))))))"

text \<open>A sequence of \<^verbatim>\<open>GetGlyph\<close> calls: the results in call order and the final face.\<close>

fun GetGlyphs :: "FontFaceTTF \<Rightarrow> unsigned list \<Rightarrow> FontGlyph option list \<times> FontFaceTTF" where
  "GetGlyphs this [] = ([], this)"
| "GetGlyphs this (c # cs) =
     (case GetGlyph this c of
        (r, this') \<Rightarrow> (case GetGlyphs this' cs of (rs, this'') \<Rightarrow> (r # rs, this'')))"

subsection \<open>Font::GetFaceTTF\<close>

definition GetTotalTextureSize :: "'a FontFace_scheme \<Rightarrow> int" where
  "GetTotalTextureSize f = (\<Sum>t \<leftarrow> textures_' f. tex_width t * tex_height t)"

record Font =
  faces_' :: "(int \<times> FontFaceTTF) list"
  fontData_' :: "byte list"
  memoryUse :: int

text \<open>
  \<open>raw\<close> is the memory of the new face object. The result is the returned face
  (\<open>None\<close> is the null pointer) and the font after the call.
\<close>

definition GetFaceTTF ::
  "Engine \<Rightarrow> FontFaceTTF \<Rightarrow> Font \<Rightarrow> int \<Rightarrow> (FontFaceTTF option \<times> Font) option" where
  "GetFaceTTF env raw font pointSize =
     (case Load env (FontFaceTTF_new pointSize raw) (fontData_' font) of
        None \<Rightarrow> None
      | Some (Inl e) \<Rightarrow> Some (None, font)
      | Some (Inr newFace) \<Rightarrow>
          Some (Some newFace,
                font\<lparr>memoryUse := memoryUse font + GetTotalTextureSize newFace,
                     faces_' := AList.update pointSize newFace (faces_' font)\<rparr>))"

section \<open>Test data\<close>

text \<open>
  A 16-bit value as it stands in a font file (big-endian), and the synthetic kerning
  table of the specification: header version 0, one subtable with the given version,
  length and coverage, and one pair.
\<close>

definition be16 :: "ushort \<Rightarrow> byte list" where
  "be16 v = [ucast (drop_bit 8 v), ucast v]"

definition kern_table_one_pair ::
  "ushort \<Rightarrow> ushort \<Rightarrow> ushort \<Rightarrow> ushort \<Rightarrow> ushort \<Rightarrow> short \<Rightarrow> byte list" where
  "kern_table_one_pair version len coverage leftGlyphIndex rightGlyphIndex v =
     be16 0 @ be16 1 @ be16 version @ be16 len @ be16 coverage @ be16 1
     @ be16 leftGlyphIndex @ be16 rightGlyphIndex @ be16 v"

text \<open>
  A glyph slot of the given pixel size with an all-white gray bitmap, a face with the
  given characters, loaders and kerning table (16 pixels per em at 16 units per em, so
  the kerning factor is 1), an engine on which everything but FreeType succeeds and whose
  unwritten memory is zero, and an all-zero memory for a new face object.
\<close>

definition test_slot :: "int \<Rightarrow> int \<Rightarrow> FT_GlyphSlot" where
  "test_slot w h =
     \<lparr>metrics = \<lparr>metrics_width = 64 * w, metrics_height = 64 * h, horiBearingX = 64,
                  horiBearingY = 64 * h, horiAdvance = 64 * (w + 2)\<rparr>,
      bitmap = \<lparr>pixel_mode = FT_PIXEL_MODE_GRAY, pitch = w,
                 buffer = replicate (nat (w * h)) 255\<rparr>\<rparr>"

definition test_face ::
  "(FT_ULong \<times> FT_UInt) list \<Rightarrow> (FT_UInt \<Rightarrow> FT_Load_Flags \<Rightarrow> FT_GlyphSlot option)
     \<Rightarrow> (FT_ULong \<Rightarrow> FT_GlyphSlot option) \<Rightarrow> byte list option \<Rightarrow> FT_Face" where
  "test_face chars glyphs_of chars_of table =
     \<lparr>face_height = 1200, y_scale = 65536, ascender = 1024, x_ppem = 16, units_per_EM = 16,
      FT_HAS_KERNING = (table \<noteq> None), FT_Chars = chars, FT_Load_Glyph = glyphs_of,
      FT_Load_Char = chars_of, FT_kern_length_ok = True, FT_kern_table = table\<rparr>"

definition test_engine :: "FT_Face \<Rightarrow> Engine" where
  "test_engine face =
     \<lparr>has_font = True, has_graphics = True, SetSize_ok = (\<lambda>w h. True), SetData_ok = True,
      CreateFace = (\<lambda>fontData pointSize. Some face), behind_kerningTable = 0,
      uninitialised_reads = (\<lambda>n. 0)\<rparr>"

definition test_raw :: FontFaceTTF where
  "test_raw =
     \<lparr>pointSize_' = 0, rowHeight_' = 0, textures_' = [], glyphMapping_' = [],
      kerningMapping_' = [], face_' = None, maxGlyphWidth_' = 0, maxGlyphHeight_' = 0,
      mutableGlyphList = [], mutableGlyphMapping_' = [],
      mutableGlyphs = (\<lambda>p. \<lparr>x_' = 0, y_' = 0, width_' = 0, height_' = 0, offsetX_' = 0,
                              offsetY_' = 0, advanceX_' = 0, page_' = 0, charCode_' = 0\<rparr>),
      ft_load_char_calls = []\<rparr>"

definition test_font :: Font where
  "test_font = \<lparr>faces_' = [], fontData_' = [0, 1, 0, 0], memoryUse = 4\<rparr>"



text \<open>
  A font that does not fit the canvas of point size 10: an ASCII glyph, a glyph for code
  127 and four glyphs of 200 x 200 pixels; the rasterizer fails on character 0x9F99.
  \<open>test_cjk_loaded\<close> is the face that \<^verbatim>\<open>Load\<close> produces from it. In
  \<open>test_broken_glyph_face\<close> everything fits, and rendering glyph 37 fails.
\<close>

definition test_cjk_face :: FT_Face where
  "test_cjk_face =
     test_face [(65, 36), (127, 41), (0x4E2D, 37), (0x6587, 38), (0x5B57, 39), (0x4F53, 40)]
       (\<lambda>glyphIndex flags. if glyphIndex = 36 \<or> glyphIndex = 41 then Some (test_slot 2 2)
                              else Some (test_slot 200 200))
       (\<lambda>charCode. if charCode = 0x9F99 then None else Some (test_slot 200 200))
       None"

definition test_broken_glyph_face :: FT_Face where
  "test_broken_glyph_face =
     test_face [(65, 36), (66, 37), (67, 38)]
       (\<lambda>glyphIndex flags. if glyphIndex = 37 \<and> flags = FT_LOAD_RENDER then None
                              else Some (test_slot 2 2))
       (\<lambda>charCode. None)
       None"

definition test_cjk_loaded :: FontFaceTTF where
  "test_cjk_loaded =
     (case Load (test_engine test_cjk_face) (FontFaceTTF_new 10 test_raw) [0, 1, 0, 0] of
        Some (Inr f) \<Rightarrow> f
      | _ \<Rightarrow> test_raw)"

section \<open>Notions used in the proofs\<close>

text \<open>The pixels of a rectangle, the canvas of an allocator and the allocator invariant:
  free rectangles lie in the canvas, and so do the placed rectangles, which no free
  rectangle meets.\<close>

definition pixels :: "IntRect \<Rightarrow> (int \<times> int) set" where
  "pixels r = {(x, y). left_' r \<le> x \<and> x < right_' r \<and> top_' r \<le> y \<and> y < bottom_' r}"

definition canvas :: "AreaAllocator \<Rightarrow> (int \<times> int) set" where
  "canvas a = {(x, y). 0 \<le> x \<and> x < size_x a \<and> 0 \<le> y \<and> y < size_y a}"

definition alloc_inv :: "AreaAllocator \<Rightarrow> IntRect list \<Rightarrow> bool" where
  "alloc_inv a placed \<longleftrightarrow>
     (\<forall>f \<in> set (freeAreas_' a). pixels f \<subseteq> canvas a)
     \<and> (\<forall>p \<in> set placed. pixels p \<subseteq> canvas a
            \<and> (\<forall>f \<in> set (freeAreas_' a). pixels f \<inter> pixels p = {}))"

text \<open>
  The cells right after \<^verbatim>\<open>Load\<close>: the addresses are \<open>0\<close> to \<open>n - 1\<close>, the newest
  at the head, no cell has a character code and the mapping is empty.
\<close>

definition cells_fresh :: "FontFaceTTF \<Rightarrow> bool" where
  "cells_fresh this \<longleftrightarrow>
     mutableGlyphList this = rev [0..<length (mutableGlyphList this)]
     \<and> mutableGlyphMapping_' this = []
     \<and> (\<forall>p \<in> set (mutableGlyphList this). charCode_' (mutableGlyphs this p) = 0)"


text \<open>
  The kerning table as the pairs stored in it: each element is a store
  \<^verbatim>\<open>kerningMapping_[(leftCharCode << 16) + rightCharCode] = amount\<close>, in the order
  of the stores.
\<close>

fun store_pairs ::
  "((unsigned \<times> unsigned) \<times> short) list \<Rightarrow> (unsigned \<times> short) list \<Rightarrow> (unsigned \<times> short) list" where
  "store_pairs [] km = km"
| "store_pairs (((leftCharCode, rightCharCode), amount) # ps) km =
     store_pairs ps (AList.update (kerning_key leftCharCode rightCharCode) amount km)"


text \<open>
  What a miss with a successful rasterization writes: the glyph of the reused tail cell
  (its position kept, its code and metrics new) and the upload of its pixels.
\<close>

definition miss_glyph :: "FontFaceTTF \<Rightarrow> FT_Face \<Rightarrow> FT_GlyphSlot \<Rightarrow> unsigned \<Rightarrow> MutableFontGlyph" where
  "miss_glyph this face slot c =
     slot_metrics face slot ((mutableGlyphs this (last (mutableGlyphList this)))\<lparr>charCode_' := c\<rparr>)"

definition miss_data :: "FontFaceTTF \<Rightarrow> FT_GlyphSlot \<Rightarrow> 'a FontGlyph_scheme \<Rightarrow> SetDataCall" where
  "miss_data this slot glyph =
     \<lparr>sd_level = 0, sd_x = sint (x_' glyph), sd_y = sint (y_' glyph),
      sd_width = maxGlyphWidth_' this, sd_height = maxGlyphHeight_' this,
      sd_data = write_rows (bitmap slot) (maxGlyphWidth_' this) 0 0
                  (sint (width_' glyph)) (sint (height_' glyph))
                  (replicate (nat (maxGlyphWidth_' this * maxGlyphHeight_' this)) 0)\<rparr>"

section \<open>Results\<close>

text \<open>The equations that evaluate the model on the test data.\<close>

lemmas eval_defs = Load_def Load_face_def Load_glyphs_and_texture_def CalculateTextureSize_def
  max_texture_size_def MAX_TEXTURE_SIZE_def MIN_TEXTURE_SIZE_def MAX_ASCII_CODE_def
  AreaAllocator_new_def GetWidth_def GetHeight_def Allocate.simps fits_def SplitRect_def rect_overlap_def
  can_grow_x_def can_grow_y_def grow_x_def grow_y_def load_glyph_def set_glyph_def slot_metrics_def
  zero_glyph_def to_short_def CreateFaceTexture_def build_kerning_def MemoryBuffer_new_def
  ReadUShort_def ReadShort_def char_code_of_def kerning_key_def
  test_face_def test_engine_def test_raw_def test_slot_def test_font_def FontFaceTTF_new_def be16_def
  kern_table_one_pair_def GetFaceTTF_def GetKerning_def Let_def


subsection \<open>The allocator\<close>

lemma rect_overlap_pixels: "rect_overlap a b \<longleftrightarrow> pixels a \<inter> pixels b \<noteq> {}"
proof
  assume "rect_overlap a b"
  then have "(max (left_' a) (left_' b), max (top_' a) (top_' b)) \<in> pixels a \<inter> pixels b"
    by (auto simp: rect_overlap_def pixels_def)
  then show "pixels a \<inter> pixels b \<noteq> {}" by blast
next
  assume "pixels a \<inter> pixels b \<noteq> {}"
  then obtain x y where "(x, y) \<in> pixels a" "(x, y) \<in> pixels b" by auto
  then show "rect_overlap a b"
    by (auto simp: rect_overlap_def pixels_def)
qed

lemma SplitRect_sub:
  assumes "f' \<in> set (SplitRect f r)"
  shows "pixels f' \<subseteq> pixels f" and "pixels f' \<inter> pixels r = {}"
proof -
  show "pixels f' \<subseteq> pixels f"
    using assms
    by (auto simp: SplitRect_def pixels_def rect_overlap_def split: if_splits)
  show "pixels f' \<inter> pixels r = {}"
  proof (cases "rect_overlap f r")
    case True
    with assms show ?thesis
      by (auto simp: SplitRect_def pixels_def split: if_splits)
  next
    case False
    with assms have "f' = f" by (simp add: SplitRect_def)
    with False show ?thesis by (simp add: rect_overlap_pixels)
  qed
qed

lemma alloc_inv_grow_x: "alloc_inv a placed \<Longrightarrow> can_grow_x a \<Longrightarrow> alloc_inv (grow_x a) placed"
  unfolding alloc_inv_def grow_x_def Let_def can_grow_x_def canvas_def pixels_def
  by (auto; fastforce)

lemma alloc_inv_grow_y: "alloc_inv a placed \<Longrightarrow> can_grow_y a \<Longrightarrow> alloc_inv (grow_y a) placed"
  unfolding alloc_inv_def grow_y_def Let_def can_grow_y_def canvas_def pixels_def
  by (auto; fastforce)

lemma find_fits_pixels:
  assumes "find (fits width height) fs = Some best"
  shows "best \<in> set fs" and "pixels (placed_rect (left_' best, top_' best) width height) \<subseteq> pixels best"
proof -
  from assms show "best \<in> set fs" by (auto simp: find_Some_iff)
  from assms have "fits width height best" by (auto simp: find_Some_iff)
  then show "pixels (placed_rect (left_' best, top_' best) width height) \<subseteq> pixels best"
    by (auto simp: fits_def placed_rect_def pixels_def)
qed

lemma Allocate_inv:
  "alloc_inv a placed \<Longrightarrow> Allocate a width height = (res, a') \<Longrightarrow>
   (case res of
      None \<Rightarrow> alloc_inv a' placed
    | Some p \<Rightarrow> alloc_inv a' (placed_rect p width height # placed)
                \<and> (\<forall>q \<in> set placed. pixels (placed_rect p width height) \<inter> pixels q = {}))"
proof (induction a width height arbitrary: res a' rule: Allocate.induct)
  case (1 a width height)
  show ?case
  proof (cases "find (fits width height) (freeAreas_' a)")
    case (Some best)
    let ?R = "placed_rect (left_' best, top_' best) width height"
    have R: "?R = \<lparr>left_' = left_' best, top_' = top_' best,
                   right_' = left_' best + width, bottom_' = top_' best + height\<rparr>"
      by (simp add: placed_rect_def)
    from Some "1.prems"(2) have res: "res = Some (left_' best, top_' best)"
      and a': "a' = a\<lparr>freeAreas_' := concat (map (\<lambda>r. SplitRect r ?R) (freeAreas_' a))\<rparr>"
      by (simp_all add: Allocate.simps [of a] Let_def R)
    have best: "best \<in> set (freeAreas_' a)" and sub: "pixels ?R \<subseteq> pixels best"
      using find_fits_pixels [OF Some] by blast+
    have inv: "\<forall>f \<in> set (freeAreas_' a). pixels f \<subseteq> canvas a"
      "\<forall>p \<in> set placed. pixels p \<subseteq> canvas a \<and> (\<forall>f \<in> set (freeAreas_' a). pixels f \<inter> pixels p = {})"
      using "1.prems"(1) by (simp_all add: alloc_inv_def)
    have canvas: "canvas a' = canvas a" by (simp add: a' canvas_def)
    have free': "\<And>f'. f' \<in> set (freeAreas_' a') \<Longrightarrow>
        \<exists>f \<in> set (freeAreas_' a). pixels f' \<subseteq> pixels f \<and> pixels f' \<inter> pixels ?R = {}"
      using SplitRect_sub by (fastforce simp: a')
    have disj: "\<forall>q \<in> set placed. pixels ?R \<inter> pixels q = {}"
      using inv(2) best sub by blast
    have A: "\<forall>f \<in> set (freeAreas_' a'). pixels f \<subseteq> canvas a"
      using free' inv(1) by blast
    have B: "pixels p \<subseteq> canvas a \<and> (\<forall>f \<in> set (freeAreas_' a'). pixels f \<inter> pixels p = {})"
      if p: "p \<in> set (?R # placed)" for p
    proof (cases "p = ?R")
      case True
      then show ?thesis using sub best inv(1) free' by blast
    next
      case False
      with p have "p \<in> set placed" by simp
      with inv(2) free' show ?thesis by blast
    qed
    have "alloc_inv a' (?R # placed)"
      unfolding alloc_inv_def canvas using A B by blast
    with disj res show ?thesis by simp
  next
    case None
    show ?thesis
    proof (cases "can_grow_x a \<and> (size_x a \<le> size_y a \<or> \<not> can_grow_y a)")
      case True
      with None "1.prems"(2) have "Allocate (grow_x a) width height = (res, a')"
        by (simp add: Allocate.simps [of a])
      moreover have "alloc_inv (grow_x a) placed"
        using "1.prems"(1) True by (simp add: alloc_inv_grow_x)
      ultimately show ?thesis using "1.IH"(1) [OF None True] by blast
    next
      case False
      note nx = this
      show ?thesis
      proof (cases "can_grow_y a")
        case True
        with None nx "1.prems"(2) have "Allocate (grow_y a) width height = (res, a')"
          by (auto simp: Allocate.simps [of a] split: if_splits)
        moreover have "alloc_inv (grow_y a) placed"
          using "1.prems"(1) True by (simp add: alloc_inv_grow_y)
        ultimately show ?thesis using "1.IH"(2) [OF None nx True] by blast
      next
        case False
        with None nx "1.prems" show ?thesis
          by (auto simp: Allocate.simps [of a] split: if_splits)
      qed
    qed
  qed
qed


lemma allocate_all_disjoint:
  "alloc_inv a placed \<Longrightarrow>
     pairwise_disjoint (allocate_all a reqs)
     \<and> (\<forall>r \<in> set (allocate_all a reqs). \<forall>q \<in> set placed. pixels r \<inter> pixels q = {})"
proof (induction reqs arbitrary: a placed)
  case Nil
  then show ?case by simp
next
  case (Cons req reqs)
  obtain width height where req: "req = (width, height)" by (cases req)
  obtain res a' where al: "Allocate a width height = (res, a')" by (cases "Allocate a width height")
  show ?case
  proof (cases res)
    case None
    with Allocate_inv [OF Cons.prems al] have "alloc_inv a' placed" by simp
    from Cons.IH [OF this] show ?thesis using None al req by simp
  next
    case (Some p)
    let ?R = "placed_rect p width height"
    from Allocate_inv [OF Cons.prems al] Some
    have inv: "alloc_inv a' (?R # placed)"
      and new: "\<forall>q \<in> set placed. pixels ?R \<inter> pixels q = {}" by simp_all
    from Cons.IH [OF inv]
    have pd: "pairwise_disjoint (allocate_all a' reqs)"
      and old: "\<forall>r \<in> set (allocate_all a' reqs). \<forall>q \<in> set (?R # placed). pixels r \<inter> pixels q = {}"
      by blast+
    have "list_all (\<lambda>s. \<not> rect_overlap ?R s) (allocate_all a' reqs)"
      using old by (auto simp: list_all_iff rect_overlap_pixels)
    with pd old new show ?thesis using Some al req by auto
  qed
qed

lemma alloc_inv_new: "alloc_inv (AreaAllocator_new width height maxWidth maxHeight) []"
  by (auto simp: alloc_inv_def AreaAllocator_new_def canvas_def pixels_def)

text \<open>
  C2: the rectangles returned by the successful calls of any sequence of
  \<^verbatim>\<open>Allocate\<close> calls on one allocator instance are pairwise disjoint; in particular two
  successive successful calls on a fresh allocator never return overlapping rectangles.
  The population pass and the pre-allocation of the dynamic cells of \<^verbatim>\<open>Load\<close> are such
  a sequence on the one allocator that \<^verbatim>\<open>Load\<close> creates.
\<close>

theorem C2_allocations_disjoint:
  "pairwise_disjoint (allocate_all (AreaAllocator_new width height maxWidth maxHeight) reqs)
   \<and> (Allocate (AreaAllocator_new width height maxWidth maxHeight) w1 h1 = (Some p1, a1)
        \<and> Allocate a1 w2 h2 = (Some p2, a2)
      \<longrightarrow> \<not> rect_overlap (placed_rect p1 w1 h1) (placed_rect p2 w2 h2))"
proof (intro conjI impI)
  show "pairwise_disjoint (allocate_all (AreaAllocator_new width height maxWidth maxHeight) reqs)"
    using allocate_all_disjoint [OF alloc_inv_new] by blast
next
  assume two: "Allocate (AreaAllocator_new width height maxWidth maxHeight) w1 h1 = (Some p1, a1)
    \<and> Allocate a1 w2 h2 = (Some p2, a2)"
  then have "allocate_all (AreaAllocator_new width height maxWidth maxHeight) [(w1, h1), (w2, h2)]
    = [placed_rect p1 w1 h1, placed_rect p2 w2 h2]"
    by simp
  moreover have "pairwise_disjoint
    (allocate_all (AreaAllocator_new width height maxWidth maxHeight) [(w1, h1), (w2, h2)])"
    using allocate_all_disjoint [OF alloc_inv_new] by blast
  ultimately show "\<not> rect_overlap (placed_rect p1 w1 h1) (placed_rect p2 w2 h2)"
    by simp
qed

theorem C2_allocations_disjoint_witness:
  "Allocate (AreaAllocator_new 128 128 512 512) 100 60
     = (Some (0, 0), \<lparr>size_x = 128, size_y = 128, maxSize_x = 512, maxSize_y = 512,
          freeAreas_' = [\<lparr>left_' = 100, top_' = 0, right_' = 128, bottom_' = 128\<rparr>,
                         \<lparr>left_' = 0, top_' = 60, right_' = 128, bottom_' = 128\<rparr>]\<rparr>)
   \<and> Allocate \<lparr>size_x = 128, size_y = 128, maxSize_x = 512, maxSize_y = 512,
          freeAreas_' = [\<lparr>left_' = 100, top_' = 0, right_' = 128, bottom_' = 128\<rparr>,
                         \<lparr>left_' = 0, top_' = 60, right_' = 128, bottom_' = 128\<rparr>]\<rparr> 100 60
     = (Some (0, 60), \<lparr>size_x = 128, size_y = 128, maxSize_x = 512, maxSize_y = 512,
          freeAreas_' = [\<lparr>left_' = 100, top_' = 0, right_' = 128, bottom_' = 128\<rparr>,
                         \<lparr>left_' = 100, top_' = 60, right_' = 128, bottom_' = 128\<rparr>,
                         \<lparr>left_' = 0, top_' = 120, right_' = 128, bottom_' = 128\<rparr>]\<rparr>)
   \<and> \<not> rect_overlap (placed_rect (0, 0) 100 60) (placed_rect (0, 60) 100 60)
   \<and> pairwise_disjoint (allocate_all (AreaAllocator_new 128 128 512 512)
        [(100, 60), (100, 60), (100, 100), (300, 300), (600, 1)])
   \<and> allocate_all (AreaAllocator_new 128 128 512 512)
        [(100, 60), (100, 60), (100, 100), (300, 300), (600, 1)]
       = [\<lparr>left_' = 0, top_' = 0, right_' = 100, bottom_' = 60\<rparr>,
          \<lparr>left_' = 0, top_' = 60, right_' = 100, bottom_' = 120\<rparr>,
          \<lparr>left_' = 128, top_' = 0, right_' = 228, bottom_' = 100\<rparr>]"
proof -
  have 1: "Allocate (AreaAllocator_new 128 128 512 512) 100 60
     = (Some (0, 0), \<lparr>size_x = 128, size_y = 128, maxSize_x = 512, maxSize_y = 512,
          freeAreas_' = [\<lparr>left_' = 100, top_' = 0, right_' = 128, bottom_' = 128\<rparr>,
                         \<lparr>left_' = 0, top_' = 60, right_' = 128, bottom_' = 128\<rparr>]\<rparr>)"
    by code_simp
  have 2: "Allocate \<lparr>size_x = 128, size_y = 128, maxSize_x = 512, maxSize_y = 512,
          freeAreas_' = [\<lparr>left_' = 100, top_' = 0, right_' = 128, bottom_' = 128\<rparr>,
                         \<lparr>left_' = 0, top_' = 60, right_' = 128, bottom_' = 128\<rparr>]\<rparr> 100 60
     = (Some (0, 60), \<lparr>size_x = 128, size_y = 128, maxSize_x = 512, maxSize_y = 512,
          freeAreas_' = [\<lparr>left_' = 100, top_' = 0, right_' = 128, bottom_' = 128\<rparr>,
                         \<lparr>left_' = 100, top_' = 60, right_' = 128, bottom_' = 128\<rparr>,
                         \<lparr>left_' = 0, top_' = 120, right_' = 128, bottom_' = 128\<rparr>]\<rparr>)"
    by code_simp
  have 3: "allocate_all (AreaAllocator_new 128 128 512 512)
        [(100, 60), (100, 60), (100, 100), (300, 300), (600, 1)]
       = [\<lparr>left_' = 0, top_' = 0, right_' = 100, bottom_' = 60\<rparr>,
          \<lparr>left_' = 0, top_' = 60, right_' = 100, bottom_' = 120\<rparr>,
          \<lparr>left_' = 128, top_' = 0, right_' = 228, bottom_' = 100\<rparr>]"
    by code_simp
  from C2_allocations_disjoint [of 128 128 512 512
      "[(100, 60), (100, 60), (100, 100), (300, 300), (600, 1)]" 100 60 "(0, 0)" _ 100 60 "(0, 60)"]
    1 2 3
  show ?thesis by simp
qed

text \<open>
  C4, as stated: the maximum canvas size is the specification's tier table (width halved
  below 16 and below 11, height halved below 32 and below 22). At point size 20 the code
  gives 1024 x 1024 where the stated table gives 2048 x 512.
\<close>

theorem C4_counterexample:
  "max_texture_size 20 = (1024, 1024) \<and> spec_max_texture_size 20 = (2048, 512)
   \<and> max_texture_size 20 \<noteq> spec_max_texture_size 20"
  by (simp add: max_texture_size_def spec_max_texture_size_def MAX_TEXTURE_SIZE_def)

text \<open>
  C4, amended: starting from 2048 x 2048, the maximum width is halved if the point size
  is below 32 and halved again if it is below 16; the maximum height is halved if the
  point size is below 22 and halved again if it is below 11.
\<close>

theorem C4_max_texture_size:
  "max_texture_size p =
     (if p < 16 then 512 else if p < 32 then 1024 else 2048,
      if p < 11 then 512 else if p < 22 then 1024 else 2048)"
  by (simp add: max_texture_size_def MAX_TEXTURE_SIZE_def)




lemma kerning_key_alias: "kerning_key 0x10041 0x56 = kerning_key 0x41 0x56"
  by (simp add: kerning_key_def)


lemma store_pairs_append: "store_pairs (ps @ qs) km = store_pairs qs (store_pairs ps km)"
  by (induction ps km rule: store_pairs.induct) simp_all

subsection \<open>The kerning table\<close>

lemma le16: "(ucast (ucast v :: byte) :: ushort) OR push_bit 8 (ucast (ucast (drop_bit 8 v) :: byte)) = v"
  by (rule bit_word_eqI) (auto simp: bit_simps)


text \<open>
  An integer below \<open>2^24\<close> in absolute value is a \<^verbatim>\<open>float\<close>: the conversion is exact.
  So the factor is 1 when the two fields are equal, and scaling by 1 changes nothing.
\<close>

lemma round_half_even_of_int: "round_half_even (of_int m) = m"
  by (simp add: round_half_even_def)

lemma float_exponent_of_int:
  assumes "0 < i" and "i < 2 ^ 24"
  shows "float_exponent (of_int i) \<le> 23"
proof -
  have "nat i < 2 ^ 24" using assms by (simp add: nat_less_iff)
  then have "floorlog 2 (nat i) \<le> 24" by (intro floorlog_leI) simp_all
  moreover have "floorlog 2 (Suc 0) = 1" by (simp add: compute_floorlog)
  ultimately show ?thesis
    by (auto simp: float_exponent_def Let_def)
qed

lemma round_float_of_int:
  assumes "\<bar>i\<bar> < 2 ^ 24"
  shows "round_float (of_int i) = of_int i"
proof (cases "i = 0")
  case True
  then show ?thesis by (simp add: round_float_def)
next
  case False
  define e where "e = float_exponent \<bar>of_int i\<bar>"
  have "\<bar>(of_int i :: rat)\<bar> = of_int \<bar>i\<bar>" by simp
  then have e23: "e \<le> 23"
    unfolding e_def using float_exponent_of_int [of "\<bar>i\<bar>"] assms False by simp
  define k where "k = nat (23 - e)"
  have ulp: "power_int (2 :: rat) (e - 23) = 1 / 2 ^ k"
  proof (cases "e = 23")
    case True
    then show ?thesis by (simp add: k_def)
  next
    case False
    with e23 have "e - 23 < 0" by simp
    then show ?thesis
      by (simp add: power_int_def k_def power_inverse [symmetric] field_simps)
  qed
  have "(of_int i :: rat) / (1 / 2 ^ k) = of_int (i * 2 ^ k)" by simp
  then have "round_half_even (of_int i / (1 / 2 ^ k)) = i * 2 ^ k"
    by (simp only: round_half_even_of_int)
  then show ?thesis
    using False by (simp add: round_float_def Let_def e_def [symmetric] ulp)
qed

lemma float_of_int_ushort: "float_of_int (uint (v :: ushort)) = of_int (uint v)"
proof -
  have "uint v < 2 ^ 16" using uint_bounded [of v] by simp
  then have "\<bar>uint v\<bar> < 2 ^ 24" by simp
  then show ?thesis unfolding float_of_int_def by (rule round_float_of_int)
qed

lemma float_of_int_short: "float_of_int (sint (v :: short)) = of_int (sint v)"
proof -
  have "- (2 ^ 15) \<le> sint v" and "sint v < 2 ^ 15"
    using sint_ge [of v] sint_lt [of v] by simp_all
  then have "\<bar>sint v\<bar> < 2 ^ 24" by simp
  then show ?thesis unfolding float_of_int_def by (rule round_float_of_int)
qed

lemma kerning_factor_1:
  assumes "x_ppem face = units_per_EM face" and "units_per_EM face \<noteq> 0"
  shows "kerning_factor face = 1"
proof -
  define u where "u = uint (units_per_EM face)"
  have "u \<noteq> 0" using assms(2) unfolding u_def by (simp only: uint_0_iff not_False_eq_True)
  then have nz: "(of_int u :: rat) \<noteq> 0" by simp
  have f: "float_of_int u = of_int u"
    unfolding u_def by (rule float_of_int_ushort)
  have m: "float_mul 1 (of_int u) = of_int u"
    using f by (simp add: float_mul_def float_of_int_def)
  have one: "round_float 1 = 1" using round_float_of_int [of 1] by simp
  have "float_div (float_of_int u) (float_mul 1 (float_of_int u)) = 1"
    using nz by (simp add: f m float_div_def one)
  then show ?thesis
    by (simp only: kerning_factor_def assms(1) u_def)
qed

lemma truncate_of_int: "truncate_toward_zero (of_int i) = i"
  by (simp add: truncate_toward_zero_def)

lemma scale_amount_1: "scale_amount v 1 = v"
proof -
  have w: "word_of_int (sint v) = v" by simp
  have "float_mul (float_of_int (sint v)) 1 = of_int (sint v)"
    using float_of_int_short [of v] by (simp add: float_mul_def float_of_int_def)
  then show ?thesis
    by (simp only: scale_amount_def truncate_of_int to_short_def w)
qed

text \<open>
  The exponent is the right one, so \<open>round_float\<close> rounds to a significand of 24 bits:
  the significand \<open>q / 2^(e - 23)\<close> of a number between \<open>2^e\<close> and \<open>2^(e + 1)\<close>
  lies between \<open>2^23\<close> and \<open>2^24\<close>, and is rounded to an integer.
\<close>

lemma floorlog_rat_bounds:
  assumes "0 < n"
  shows "(2 :: rat) ^ floorlog 2 n \<le> 2 * of_nat n" and "(of_nat n :: rat) < 2 ^ floorlog 2 n"
    and "0 < floorlog 2 n"
proof -
  from floorlog_bounds [of n 2] assms
  have l: "2 ^ (floorlog 2 n - 1) \<le> n" and u: "n < 2 ^ floorlog 2 n" by simp_all
  show p: "0 < floorlog 2 n" using assms by (simp add: floorlog_def)
  then have "(2 :: nat) ^ floorlog 2 n = 2 * 2 ^ (floorlog 2 n - 1)"
    by (cases "floorlog 2 n") simp_all
  with l have "2 ^ floorlog 2 n \<le> 2 * n" by simp
  then have "(of_nat (2 ^ floorlog 2 n) :: rat) \<le> of_nat (2 * n)"
    by (simp only: of_nat_le_iff)
  then show "(2 :: rat) ^ floorlog 2 n \<le> 2 * of_nat n" by simp
  from u have "(of_nat n :: rat) < of_nat (2 ^ floorlog 2 n)"
    by (simp only: of_nat_less_iff)
  then show "(of_nat n :: rat) < 2 ^ floorlog 2 n" by simp
qed

lemma float_exponent_bounds:
  assumes "0 < q"
  shows "power_int 2 (float_exponent q) \<le> q" and "q < power_int 2 (float_exponent q + 1)"
proof -
  obtain a b where ab: "quotient_of q = (a, b)" by (cases "quotient_of q")
  then have b: "0 < b" by (rule quotient_of_denom_pos)
  from ab have q: "q = of_int a / of_int b" by (rule quotient_of_div)
  with assms b have a: "0 < a" by (simp add: zero_less_divide_iff)
  define fa where "fa = floorlog 2 (nat a)"
  define fb where "fb = floorlog 2 (nat b)"
  define e where "e = int fa - int fb"
  have na: "(of_nat (nat a) :: rat) = of_int a" and nb: "(of_nat (nat b) :: rat) = of_int b"
    using a b by simp_all
  have a1: "(2 :: rat) ^ fa \<le> 2 * of_int a" and a2: "(of_int a :: rat) < 2 ^ fa"
    using floorlog_rat_bounds(1,2) [of "nat a"] a unfolding fa_def na by simp_all
  have b1: "(2 :: rat) ^ fb \<le> 2 * of_int b" and b2: "(of_int b :: rat) < 2 ^ fb"
    using floorlog_rat_bounds(1,2) [of "nat b"] b unfolding fb_def nb by simp_all
  have pe: "power_int (2 :: rat) e = 2 ^ fa / 2 ^ fb"
    unfolding e_def by (simp add: power_int_diff)
  have bpos: "(0 :: rat) < of_int b" using b by simp
  have up: "q < 2 * power_int 2 e"
  proof -
    have "of_int a * (2 :: rat) ^ fb < 2 ^ fa * (2 * of_int b)"
    proof -
      have "of_int a * (2 :: rat) ^ fb < 2 ^ fa * 2 ^ fb" using a2 by simp
      also have "\<dots> \<le> 2 ^ fa * (2 * of_int b)" using b1 by simp
      finally show ?thesis .
    qed
    then have "of_int a / of_int b < 2 * ((2 :: rat) ^ fa / 2 ^ fb)"
      using bpos by (simp add: field_simps)
    then show ?thesis by (simp only: q pe)
  qed
  have lo: "power_int 2 e < 2 * q"
  proof -
    have "(2 :: rat) ^ fa * of_int b < 2 * of_int a * 2 ^ fb"
    proof -
      have "(2 :: rat) ^ fa * of_int b < 2 ^ fa * 2 ^ fb" using b2 by simp
      also have "\<dots> \<le> 2 * of_int a * 2 ^ fb" using a1 by simp
      finally show ?thesis .
    qed
    then have "(2 :: rat) ^ fa / 2 ^ fb < 2 * (of_int a / of_int b)"
      using bpos by (simp add: field_simps)
    then show ?thesis by (simp only: q pe)
  qed
  have fe: "float_exponent q = (if power_int 2 e \<le> q then e else e - 1)"
    by (simp add: float_exponent_def ab e_def fa_def fb_def)
  have p1: "power_int (2 :: rat) (e + 1) = 2 * power_int 2 e"
    by (simp add: power_int_add)
  have m1: "2 * power_int (2 :: rat) (e - 1) = power_int 2 e"
    by (simp add: power_int_diff)
  show "power_int 2 (float_exponent q) \<le> q"
  proof (cases "power_int 2 e \<le> q")
    case True
    then show ?thesis by (simp add: fe)
  next
    case False
    have "2 * power_int 2 (e - 1) < 2 * q" using lo by (simp only: m1)
    then have "power_int 2 (e - 1) \<le> q" by simp
    with False show ?thesis by (simp add: fe)
  qed
  show "q < power_int 2 (float_exponent q + 1)"
  proof (cases "power_int 2 e \<le> q")
    case True
    with up show ?thesis by (simp add: fe p1)
  next
    case False
    then show ?thesis by (simp add: fe)
  qed
qed

lemma float_exponent_eq:
  assumes "power_int 2 e \<le> q" and "q < power_int 2 (e + 1)"
  shows "float_exponent q = e"
proof -
  have "(0 :: rat) < power_int 2 e" by simp
  then have q: "0 < q" using assms(1) by (rule less_le_trans)
  note b = float_exponent_bounds [OF q]
  let ?r = "float_exponent q"
  have "\<not> ?r + 1 \<le> e"
  proof
    assume "?r + 1 \<le> e"
    then have "power_int (2 :: rat) (?r + 1) \<le> power_int 2 e"
      by (intro power_int_increasing) simp_all
    with assms(1) b(2) show False by simp
  qed
  moreover have "\<not> e + 1 \<le> ?r"
  proof
    assume "e + 1 \<le> ?r"
    then have "power_int (2 :: rat) (e + 1) \<le> power_int 2 ?r"
      by (intro power_int_increasing) simp_all
    with assms(2) b(1) show False by simp
  qed
  ultimately show ?thesis by simp
qed

lemma round_float_eq:
  assumes "power_int 2 e \<le> \<bar>q\<bar>" and "\<bar>q\<bar> < power_int 2 (e + 1)"
  shows "round_float q = of_int (round_half_even (q / power_int 2 (e - 23))) * power_int 2 (e - 23)"
proof -
  have "(0 :: rat) < power_int 2 e" by simp
  then have "0 < \<bar>q\<bar>" using assms(1) by (rule less_le_trans)
  then have "q \<noteq> 0" by simp
  then show ?thesis
    by (simp add: round_float_def Let_def float_exponent_eq [OF assms])
qed

lemma floor_rat_numeral:
  "\<lfloor>(numeral a / numeral b :: rat)\<rfloor> = numeral a div numeral b"
  "\<lfloor>- (numeral a / numeral b :: rat)\<rfloor> = - numeral a div numeral b"
  using floor_divide_of_int_eq [of "numeral a" "numeral b", where ?'a = rat]
    floor_divide_of_int_eq [of "- numeral a" "numeral b", where ?'a = rat]
  by simp_all

text \<open>
  Where the quotient or the product is not a \<^verbatim>\<open>float\<close> the rounding shows: at 18
  pixels per em and 1000 units per em the factor is a little below 18 / 1000, and the
  value -1500 is scaled to -26, where the exact product is -27.
\<close>

lemma kerning_factor_18_1000:
  assumes "x_ppem face = 18" and "units_per_EM face = 1000"
  shows "kerning_factor face = 2415919 / 134217728"
proof -
  have a: "float_of_int 18 = 18" using round_float_of_int [of 18] by (simp add: float_of_int_def)
  have b: "float_of_int 1000 = 1000"
    using round_float_of_int [of 1000] by (simp add: float_of_int_def)
  have c: "float_mul 1 1000 = 1000"
    using round_float_of_int [of 1000] by (simp add: float_mul_def)
  have "round_float (9 / 500) =
      of_int (round_half_even ((9 / 500) / power_int 2 (- 6 - 23))) * power_int 2 (- 6 - 23)"
    by (rule round_float_eq) (simp_all add: power_int_def power_divide)
  also have "(9 / 500) / power_int 2 (- 6 - 23) = (1207959552 / 125 :: rat)"
    by (simp add: power_int_def power_divide)
  also have "round_half_even (1207959552 / 125) = 9663676"
    by (simp add: round_half_even_def Let_def floor_rat_numeral)
  finally have "round_float (9 / 500) = 2415919 / 134217728"
    by (simp add: power_int_def power_divide)
  then show ?thesis
    by (simp add: kerning_factor_def assms a b c float_div_def)
qed

lemma scale_amount_rounds:
  "scale_amount (- 1500) (2415919 / 134217728) = - 26"
  "truncate_toward_zero (of_int (sint (- 1500 :: short)) * (18 / 1000)) = - 27"
proof -
  have s: "sint (- 1500 :: short) = - 1500" by simp
  have a: "float_of_int (- 1500) = - 1500"
    using round_float_of_int [of "- 1500"] by (simp add: float_of_int_def)
  have "round_float (- 1500 * (2415919 / 134217728)) =
      of_int (round_half_even ((- 1500 * (2415919 / 134217728)) / power_int 2 (4 - 23)))
        * power_int 2 (4 - 23)"
    by (rule round_float_eq) (simp_all add: power_int_def power_divide)
  also have "(- 1500 * (2415919 / 134217728)) / power_int 2 (4 - 23) = (- (905969625 / 64) :: rat)"
    by (simp add: power_int_def power_divide)
  also have "round_half_even (- (905969625 / 64)) = - 14155775"
    by (simp add: round_half_even_def Let_def floor_rat_numeral)
  finally have m: "float_mul (- 1500) (2415919 / 134217728) = - (14155775 / 524288)"
    by (simp add: float_mul_def power_int_def power_divide)
  have t: "truncate_toward_zero (- (14155775 / 524288)) = - 26"
    by (simp add: truncate_toward_zero_def ceiling_def floor_rat_numeral)
  show "scale_amount (- 1500) (2415919 / 134217728) = - 26"
    by (simp add: scale_amount_def s a m t to_short_def)
  show "truncate_toward_zero (of_int (sint (- 1500 :: short)) * (18 / 1000)) = - 27"
    by (simp add: s truncate_toward_zero_def)
qed


text \<open>
  \<^verbatim>\<open>Load\<close> does not fail on a table of odd size, nor on a table that ends before its
  last pair does: the missing values are whatever the memory holds.
\<close>

lemma build_kerning_odd_size:
  assumes "FT_kern_length_ok face"
    and "FT_kern_table face = Some (kern_table_one_pair 0 len 1 leftGlyphIndex rightGlyphIndex v @ [b])"
    and "x_ppem face = units_per_EM face" and "units_per_EM face \<noteq> 0"
    and "v \<noteq> 0"
  shows "build_kerning env face gi this =
     Inr (this\<lparr>kerningMapping_' := AList.update
            (kerning_key (char_code_of gi leftGlyphIndex) (char_code_of gi rightGlyphIndex)) v
            (kerningMapping_' this)\<rparr>)"
  using assms
  by (simp add: build_kerning_def MemoryBuffer_new_def kern_table_one_pair_def be16_def
      ReadUShort_def ReadShort_def le16 scale_amount_1 kerning_factor_1 numeral_2_eq_2 Let_def)

lemma build_kerning_truncated:
  assumes "FT_kern_length_ok face"
    and "FT_kern_table face = Some (be16 0 @ be16 1 @ be16 0 @ be16 len @ be16 1 @ be16 1 @ be16 leftGlyphIndex)"
  shows "\<exists>this'. build_kerning env face gi this = Inr this'"
  using assms
  by (auto simp: build_kerning_def MemoryBuffer_new_def be16_def
      ReadUShort_def ReadShort_def numeral_2_eq_2 Let_def)

text \<open>
  The kerning map that \<^verbatim>\<open>Load\<close> builds is the result of a sequence of stores of pairs
  of character codes, each one the code that the enumeration recorded for a glyph index,
  or 0.
\<close>

lemma read_pairs_store:
  "\<exists>ps. snd (read_pairs n factor gi d km) = store_pairs ps km
      \<and> (\<forall>p \<in> set ps. \<exists>l r. fst p = (char_code_of gi l, char_code_of gi r))"
proof (induction n arbitrary: d km)
  case 0
  have "snd (read_pairs 0 factor gi d km) = store_pairs [] km" by simp
  then show ?case by fastforce
next
  case (Suc n)
  obtain l d1 where r1: "ReadUShort d = (l, d1)" by (cases "ReadUShort d")
  obtain r d2 where r2: "ReadUShort d1 = (r, d2)" by (cases "ReadUShort d1")
  obtain v d3 where r3: "ReadShort d2 = (v, d3)" by (cases "ReadShort d2")
  let ?a = "scale_amount v factor"
  let ?k = "kerning_key (char_code_of gi l) (char_code_of gi r)"
  show ?case
  proof (cases "?a = 0")
    case True
    then have "read_pairs (Suc n) factor gi d km = read_pairs n factor gi d3 km"
      by (simp add: r1 r2 r3)
    with Suc.IH [of d3 km] show ?thesis by simp
  next
    case False
    then have e: "read_pairs (Suc n) factor gi d km = read_pairs n factor gi d3 (AList.update ?k ?a km)"
      by (simp add: r1 r2 r3)
    from Suc.IH [of d3 "AList.update ?k ?a km"] obtain ps where
      ps: "snd (read_pairs n factor gi d3 (AList.update ?k ?a km)) = store_pairs ps (AList.update ?k ?a km)"
      and c: "\<forall>p \<in> set ps. \<exists>l r. fst p = (char_code_of gi l, char_code_of gi r)"
      by blast
    let ?ps = "((char_code_of gi l, char_code_of gi r), ?a) # ps"
    have "snd (read_pairs (Suc n) factor gi d km) = store_pairs ?ps km"
      by (simp only: e ps store_pairs.simps)
    moreover have "\<forall>p \<in> set ?ps. \<exists>l r. fst p = (char_code_of gi l, char_code_of gi r)"
      using c by auto
    ultimately show ?thesis by blast
  qed
qed

lemma read_tables_store:
  "read_tables n factor gi d km = Inr (d', km') \<Longrightarrow>
     \<exists>ps. km' = store_pairs ps km
      \<and> (\<forall>p \<in> set ps. \<exists>l r. fst p = (char_code_of gi l, char_code_of gi r))"
proof (induction n arbitrary: d km)
  case 0
  then have "km' = store_pairs [] km" by simp
  then show ?case by fastforce
next
  case (Suc n)
  obtain version d1 where r1: "ReadUShort d = (version, d1)" by (cases "ReadUShort d")
  obtain len d2 where r2: "ReadUShort d1 = (len, d2)" by (cases "ReadUShort d1")
  obtain coverage d3 where r3: "ReadUShort d2 = (coverage, d3)" by (cases "ReadUShort d2")
  obtain numPairs d4 where r4: "ReadUShort d3 = (numPairs, d4)" by (cases "ReadUShort d3")
  obtain d5 km1 where r5: "read_pairs (unat numPairs) factor gi d4 km = (d5, km1)"
    by (cases "read_pairs (unat numPairs) factor gi d4 km")
  from Suc.prems have ok: "version = 0 \<and> coverage = 1"
    by (simp add: r1 r2 r3 split: if_splits)
  with Suc.prems have rest: "read_tables n factor gi d5 km1 = Inr (d', km')"
    by (simp add: r1 r2 r3 r4 r5)
  from read_pairs_store [of "unat numPairs" factor gi d4 km] r5 obtain ps where
    ps: "km1 = store_pairs ps km"
    and c: "\<forall>p \<in> set ps. \<exists>l r. fst p = (char_code_of gi l, char_code_of gi r)"
    by auto
  from Suc.IH [OF rest] obtain qs where
    qs: "km' = store_pairs qs km1"
    and c': "\<forall>p \<in> set qs. \<exists>l r. fst p = (char_code_of gi l, char_code_of gi r)"
    by blast
  have "km' = store_pairs (ps @ qs) km" by (simp add: store_pairs_append ps qs)
  moreover have "\<forall>p \<in> set (ps @ qs). \<exists>l r. fst p = (char_code_of gi l, char_code_of gi r)"
    using c c' by auto
  ultimately show ?case by blast
qed

lemma build_kerning_store:
  assumes "build_kerning env face gi this = Inr this'"
  shows "\<exists>ps. kerningMapping_' this' = store_pairs ps (kerningMapping_' this)
      \<and> (\<forall>p \<in> set ps. \<exists>l r. fst p = (char_code_of gi l, char_code_of gi r))"
proof -
  from assms obtain n d d' km where
    "read_tables n (kerning_factor face) gi d (kerningMapping_' this) = Inr (d', km)"
    and "this' = this\<lparr>kerningMapping_' := km\<rparr>"
    by (auto simp: build_kerning_def Let_def split: if_splits option.splits sum.splits prod.splits)
  with read_tables_store [of n "kerning_factor face" gi d "kerningMapping_' this" d' km]
  show ?thesis by simp
qed

lemma char_code_of_bound:
  assumes "\<forall>p \<in> set gi. snd p < 65536"
  shows "char_code_of gi glyphIndex < 65536"
proof (cases "map_of gi (ucast glyphIndex)")
  case None
  then show ?thesis by (simp add: char_code_of_def)
next
  case (Some charCode)
  then have "(ucast glyphIndex, charCode) \<in> set gi" by (rule map_of_SomeD)
  with assms have "charCode < 65536" by fastforce
  with Some show ?thesis by (simp add: char_code_of_def)
qed










subsection \<open>Load and the dynamic cache\<close>

lemma sizing_loop_frame:
  "sizing_loop face chars (la, a, this) = (la', a', this') \<Longrightarrow>
     this' = this\<lparr>maxGlyphWidth_' := maxGlyphWidth_' this', maxGlyphHeight_' := maxGlyphHeight_' this'\<rparr>"
proof (induction chars arbitrary: la a this)
  case Nil
  then show ?case by simp
next
  case (Cons cg chars)
  obtain charCode glyphIndex where cg: "cg = (charCode, glyphIndex)" by (cases cg)
  show ?case
  proof (cases "glyphIndex = 0")
    case True
    with Cons.prems cg show ?thesis by simp
  next
    case False
    show ?thesis
    proof (cases "FT_Load_Glyph face glyphIndex FT_LOAD_DEFAULT")
      case None
      with Cons.prems cg False have "sizing_loop face chars (la, a, this) = (la', a', this')" by simp
      from Cons.IH [OF this] show ?thesis .
    next
      case (Some slot)
      with Cons.prems cg False obtain la1 a1 this1 where
        step: "sizing_loop face chars (la1, a1, this1) = (la', a', this')"
        and this1: "this1 = this\<lparr>maxGlyphWidth_' := max (maxGlyphWidth_' this) (metrics_width (metrics slot) div 64 + 1),
                                  maxGlyphHeight_' := max (maxGlyphHeight_' this) (metrics_height (metrics slot) div 64 + 1)\<rparr>"
        by (auto simp: Let_def split: prod.splits)
      from Cons.IH [OF step] have "this' = this1\<lparr>maxGlyphWidth_' := maxGlyphWidth_' this', maxGlyphHeight_' := maxGlyphHeight_' this'\<rparr>" .
      then show ?thesis by (simp add: this1)
    qed
  qed
qed

lemma CalculateTextureSize_frame:
  "CalculateTextureSize face this = (la, w, h, this') \<Longrightarrow>
     this' = this\<lparr>maxGlyphWidth_' := maxGlyphWidth_' this', maxGlyphHeight_' := maxGlyphHeight_' this'\<rparr>"
  by (auto simp: CalculateTextureSize_def Let_def split: prod.splits dest: sizing_loop_frame)

lemma load_glyph_frame:
  "load_glyph face texWidth charCode glyphIndex st = Inr st' \<Longrightarrow>
     ls_this st' = (ls_this st)\<lparr>glyphMapping_' := glyphMapping_' (ls_this st')\<rparr>
     \<and> ls_glyphIndexToCharCodeMapping st' = ls_glyphIndexToCharCodeMapping st
     \<and> (\<forall>k. k \<noteq> ucast charCode \<longrightarrow>
           map_of (glyphMapping_' (ls_this st')) k = map_of (glyphMapping_' (ls_this st)) k)"
  by (auto simp: load_glyph_def set_glyph_def Let_def update_conv' split: option.splits prod.splits)

lemma load_glyphs_frame:
  "load_glyphs face la hasKerning texWidth chars st = Inr st' \<Longrightarrow>
     ls_this st' = (ls_this st)\<lparr>glyphMapping_' := glyphMapping_' (ls_this st')\<rparr>"
proof (induction chars arbitrary: st)
  case Nil
  then show ?case by simp
next
  case (Cons cg chars)
  obtain charCode glyphIndex where cg: "cg = (charCode, glyphIndex)" by (cases cg)
  show ?case
  proof (cases "glyphIndex = 0")
    case True
    with Cons.prems cg show ?thesis by simp
  next
    case False
    from Cons.prems cg False obtain st1 where
      one: "(if la \<or> charCode < of_int MAX_ASCII_CODE then load_glyph face texWidth charCode glyphIndex st else Inr st) = Inr st1"
      and rest: "load_glyphs face la hasKerning texWidth chars
           (if hasKerning then st1\<lparr>ls_glyphIndexToCharCodeMapping :=
               AList.update glyphIndex (ucast charCode) (ls_glyphIndexToCharCodeMapping st1)\<rparr> else st1) = Inr st'"
      by (auto split: sum.splits)
    from one have f1: "ls_this st1 = (ls_this st)\<lparr>glyphMapping_' := glyphMapping_' (ls_this st1)\<rparr>"
      using load_glyph_frame by (auto split: if_splits)
    from Cons.IH [OF rest]
    have "ls_this st' = (ls_this st1)\<lparr>glyphMapping_' := glyphMapping_' (ls_this st')\<rparr>"
      by (simp split: if_splits)
    with f1 show ?thesis by (metis FontFace.update_convs(4) FontFace.surjective)
  qed
qed


lemma ucast_ascii_neq: "charCode < 127 \<Longrightarrow> (ucast (charCode :: FT_ULong) :: unsigned) \<noteq> 127"
proof
  assume lt: "charCode < 127" and eq: "(ucast charCode :: unsigned) = 127"
  from lt have "unat charCode < 127" by (simp add: word_less_nat_alt)
  then have "unat (ucast charCode :: unsigned) = unat charCode"
    by (simp add: unsigned_ucast_eq take_bit_eq_mod)
  with eq \<open>unat charCode < 127\<close> show False by simp
qed

lemma load_glyphs_partial_127:
  "load_glyphs face False hasKerning texWidth chars st = Inr st' \<Longrightarrow>
     map_of (glyphMapping_' (ls_this st')) 127 = map_of (glyphMapping_' (ls_this st)) 127"
proof (induction chars arbitrary: st)
  case Nil
  then show ?case by simp
next
  case (Cons cg chars)
  obtain charCode glyphIndex where cg: "cg = (charCode, glyphIndex)" by (cases cg)
  show ?case
  proof (cases "glyphIndex = 0")
    case True
    with Cons.prems cg show ?thesis by simp
  next
    case False
    from Cons.prems cg False obtain st1 where
      one: "(if charCode < of_int MAX_ASCII_CODE then load_glyph face texWidth charCode glyphIndex st else Inr st) = Inr st1"
      and rest: "load_glyphs face False hasKerning texWidth chars
           (if hasKerning then st1\<lparr>ls_glyphIndexToCharCodeMapping :=
               AList.update glyphIndex (ucast charCode) (ls_glyphIndexToCharCodeMapping st1)\<rparr> else st1) = Inr st'"
      by (auto split: sum.splits)
    from one have "map_of (glyphMapping_' (ls_this st1)) 127 = map_of (glyphMapping_' (ls_this st)) 127"
      using load_glyph_frame [of face texWidth charCode glyphIndex st st1] ucast_ascii_neq [of charCode]
      by (auto simp: MAX_ASCII_CODE_def split: if_splits)
    with Cons.IH [OF rest] show ?thesis by (simp split: if_splits)
  qed
qed

lemma build_kerning_frame:
  "build_kerning env face gi this = Inr this' \<Longrightarrow> this' = this\<lparr>kerningMapping_' := kerningMapping_' this'\<rparr>"
  by (auto simp: build_kerning_def Let_def split: if_splits option.splits sum.splits prod.splits)

lemma allocate_mutable_glyphs_result':
  assumes "allocate_mutable_glyphs allocator this = Some this'"
  shows "cells_fresh this \<longrightarrow>
     cells_fresh this' \<and>
     this' = this\<lparr>mutableGlyphList := mutableGlyphList this', mutableGlyphs := mutableGlyphs this'\<rparr>"
proof (rule allocate_mutable_glyphs.raw_induct [where P = "\<lambda>allocator this this'. cells_fresh this \<longrightarrow>
     cells_fresh this' \<and>
     this' = this\<lparr>mutableGlyphList := mutableGlyphList this', mutableGlyphs := mutableGlyphs this'\<rparr>",
     OF _ assms], goal_cases)
  case (1 f allocator this this')
  obtain res a' where al: "Allocate allocator (maxGlyphWidth_' this) (maxGlyphHeight_' this) = (res, a')"
    by (cases "Allocate allocator (maxGlyphWidth_' this) (maxGlyphHeight_' this)")
  show ?case
  proof (cases res)
    case None
    with 1 al show ?thesis by simp
  next
    case (Some xy)
    obtain x y where xy: "xy = (x, y)" by (cases xy)
    let ?n = "length (mutableGlyphList this)"
    let ?this1 = "this\<lparr>mutableGlyphs := (mutableGlyphs this)
                     (?n := (mutableGlyphs this ?n)
                          \<lparr>x_' := to_short x, y_' := to_short y, page_' := 0, charCode_' := 0\<rparr>),
                  mutableGlyphList := ?n # mutableGlyphList this\<rparr>"
    from 1(2) al Some xy have call: "f a' ?this1 = Some this'" by simp
    show ?thesis
    proof
      assume fr: "cells_fresh this"
      then have fresh: "cells_fresh ?this1"
        by (auto simp: cells_fresh_def)
      from 1(1) [OF call] fresh show "cells_fresh this' \<and>
        this' = this\<lparr>mutableGlyphList := mutableGlyphList this', mutableGlyphs := mutableGlyphs this'\<rparr>"
        by simp
    qed
  qed
qed


lemma Load_glyphs_and_texture_frame:
  assumes "Load_glyphs_and_texture env face this0 = Inr (la, st, this3)"
  shows "mutableGlyphList this3 = mutableGlyphList this0"
    and "mutableGlyphMapping_' this3 = mutableGlyphMapping_' this0"
    and "mutableGlyphs this3 = mutableGlyphs this0"
    and "kerningMapping_' this3 = kerningMapping_' this0"
    and "ft_load_char_calls this3 = ft_load_char_calls this0"
    and "face_' this3 = Some face"
    and "\<not> la \<Longrightarrow> map_of (glyphMapping_' this3) 127 = map_of (glyphMapping_' this0) 127"
proof -
  let ?this1 = "this0\<lparr>face_' := Some face,
                       rowHeight_' := (face_height face * (y_scale face div 64)) div 65536\<rparr>"
  obtain la' texWidth texHeight this2 where
    calc: "CalculateTextureSize face ?this1 = (la', texWidth, texHeight, this2)"
    by (cases "CalculateTextureSize face ?this1") auto
  let ?st0 = "\<lparr>ls_this = this2,
      ls_allocator = AreaAllocator_new texWidth texHeight texWidth texHeight,
      ls_texData = replicate (nat (texWidth * texHeight)) 0,
      ls_glyphIndexToCharCodeMapping = []\<rparr>"
  from assms calc obtain texture where
    la: "la' = la"
    and lg: "load_glyphs face la (FT_HAS_KERNING face) texWidth (FT_Chars face) ?st0 = Inr st"
    and this3: "this3 = (ls_this st)\<lparr>textures_' := textures_' (ls_this st) @ [texture]\<rparr>"
    by (auto simp: Load_glyphs_and_texture_def Let_def split: sum.splits option.splits)
  note f2 = CalculateTextureSize_frame [OF calc]
  note f3 = load_glyphs_frame [OF lg]
  have eq: "this3 = this0\<lparr>face_' := Some face,
      rowHeight_' := (face_height face * (y_scale face div 64)) div 65536,
      maxGlyphWidth_' := maxGlyphWidth_' this2, maxGlyphHeight_' := maxGlyphHeight_' this2,
      glyphMapping_' := glyphMapping_' (ls_this st),
      textures_' := textures_' (ls_this st) @ [texture]\<rparr>"
    unfolding this3 by (subst f3, simp, subst f2, simp)
  show "mutableGlyphList this3 = mutableGlyphList this0"
    and "mutableGlyphMapping_' this3 = mutableGlyphMapping_' this0"
    and "mutableGlyphs this3 = mutableGlyphs this0"
    and "kerningMapping_' this3 = kerningMapping_' this0"
    and "ft_load_char_calls this3 = ft_load_char_calls this0"
    and "face_' this3 = Some face"
    by (simp_all add: eq)
  show "map_of (glyphMapping_' this3) 127 = map_of (glyphMapping_' this0) 127" if "\<not> la"
  proof -
    from that lg have "map_of (glyphMapping_' (ls_this st)) 127 = map_of (glyphMapping_' this2) 127"
      using load_glyphs_partial_127 [of face "FT_HAS_KERNING face" texWidth "FT_Chars face" ?st0 st]
      by simp
    moreover have "glyphMapping_' this2 = glyphMapping_' this0" by (subst f2) simp
    ultimately show ?thesis by (simp add: this3)
  qed
qed

lemma Load_face_result:
  assumes "Load_face env face this0 = Some (Inr f)"
    and "mutableGlyphList this0 = []" and "mutableGlyphMapping_' this0 = []"
  shows "cells_fresh f" and "face_' f = Some face"
    and "\<And>st this3. Load_glyphs_and_texture env face this0 = Inr (False, st, this3) \<Longrightarrow>
           map_of (glyphMapping_' f) 127 = map_of (glyphMapping_' this0) 127"
proof -
  from assms(1) obtain la st this3 where
    L: "Load_glyphs_and_texture env face this0 = Inr (la, st, this3)"
    by (auto simp: Load_face_def split: sum.splits)
  note fr = Load_glyphs_and_texture_frame [OF L]
  let ?k = "if FT_HAS_KERNING face then build_kerning env face (ls_glyphIndexToCharCodeMapping st) this3
         else Inr this3"
  from assms(1) L obtain this4 where k: "?k = Inr this4"
    by (cases ?k) (simp_all add: Load_face_def)
  from assms(1) L k have
    c: "(if \<not> la then map_option Inr (allocate_mutable_glyphs (ls_allocator st) this4)
            else Some (Inr this4)) = Some (Inr f)"
    by (auto simp: Load_face_def split: if_splits)
  from k have f4: "this4 = this3\<lparr>kerningMapping_' := kerningMapping_' this4\<rparr>"
    using build_kerning_frame by (auto split: if_splits)
  have fresh4: "cells_fresh this4"
    by (subst f4) (simp add: cells_fresh_def fr assms)
  have face4: "face_' this4 = Some face" by (subst f4) (simp add: fr)
  have g4: "glyphMapping_' this4 = glyphMapping_' this3" by (subst f4) simp
  have ff: "cells_fresh f \<and> face_' f = Some face \<and> glyphMapping_' f = glyphMapping_' this3"
  proof (cases la)
    case True
    with c fresh4 face4 g4 show ?thesis by simp
  next
    case False
    with c have a: "allocate_mutable_glyphs (ls_allocator st) this4 = Some f" by auto
    from allocate_mutable_glyphs_result' [OF a] fresh4
    have "cells_fresh f"
      and e: "f = this4\<lparr>mutableGlyphList := mutableGlyphList f, mutableGlyphs := mutableGlyphs f\<rparr>"
      by simp_all
    moreover have "face_' f = Some face" by (subst e) (simp add: face4)
    moreover have "glyphMapping_' f = glyphMapping_' this3" by (subst e) (simp add: g4)
    ultimately show ?thesis by simp
  qed
  then show "cells_fresh f" and "face_' f = Some face" by simp_all
  show "map_of (glyphMapping_' f) 127 = map_of (glyphMapping_' this0) 127"
    if "Load_glyphs_and_texture env face this0 = Inr (False, st', this3')" for st' this3'
    using that L fr(7) ff by simp
qed


lemma GetGlyph_static:
  "mutableGlyphList this = [] \<or> c \<le> 127 \<Longrightarrow> GetGlyph this c = (FontFace_GetGlyph this c, this)"
  by (simp add: GetGlyph_def MAX_ASCII_CODE_def)

lemma GetGlyph_hit:
  "mutableGlyphList this \<noteq> [] \<Longrightarrow> 127 < c \<Longrightarrow> map_of (mutableGlyphMapping_' this) c = Some p \<Longrightarrow>
   GetGlyph this c =
     (Some (FontGlyph.truncate (mutableGlyphs this p)),
      this\<lparr>mutableGlyphList := p # remove1 p (mutableGlyphList this)\<rparr>)"
  by (simp add: GetGlyph_def MAX_ASCII_CODE_def not_le [symmetric])

lemma GetGlyph_miss_fail:
  "mutableGlyphList this \<noteq> [] \<Longrightarrow> 127 < c \<Longrightarrow> map_of (mutableGlyphMapping_' this) c = None \<Longrightarrow>
   face_' this = Some face \<Longrightarrow> FT_Load_Char face (ucast c) = None \<Longrightarrow>
   GetGlyph this c = (None, this\<lparr>ft_load_char_calls := c # ft_load_char_calls this\<rparr>)"
  by (simp add: GetGlyph_def MAX_ASCII_CODE_def not_le [symmetric])

lemma GetGlyph_miss:
  assumes "mutableGlyphList this \<noteq> []" and "127 < c"
    and "map_of (mutableGlyphMapping_' this) c = None"
    and "face_' this = Some face" and "FT_Load_Char face (ucast c) = Some slot"
  shows "GetGlyph this c =
     (Some (FontGlyph.truncate (miss_glyph this face slot c)),
      this\<lparr>mutableGlyphList :=
             last (mutableGlyphList this) # remove1 (last (mutableGlyphList this)) (mutableGlyphList this),
           mutableGlyphMapping_' :=
             AList.update c (last (mutableGlyphList this))
               (if charCode_' (mutableGlyphs this (last (mutableGlyphList this))) \<noteq> 0
                then AList.delete (charCode_' (mutableGlyphs this (last (mutableGlyphList this))))
                       (mutableGlyphMapping_' this)
                else mutableGlyphMapping_' this),
           mutableGlyphs := (mutableGlyphs this)
             (last (mutableGlyphList this) := miss_glyph this face slot c),
           textures_' := SetData (miss_data this slot (miss_glyph this face slot c)) (textures_' this),
           ft_load_char_calls := c # ft_load_char_calls this\<rparr>)"
  using assms
  by (simp add: GetGlyph_def MAX_ASCII_CODE_def not_le [symmetric] Let_def miss_glyph_def miss_data_def)




lemma GetGlyph_noface:
  "mutableGlyphList this \<noteq> [] \<Longrightarrow> 127 < c \<Longrightarrow> map_of (mutableGlyphMapping_' this) c = None \<Longrightarrow>
   face_' this = None \<Longrightarrow> GetGlyph this c = (None, this)"
  by (simp add: GetGlyph_def MAX_ASCII_CODE_def not_le [symmetric])

lemma GetGlyph_cases:
  obtains (static) "mutableGlyphList this = [] \<or> c \<le> 127"
      "GetGlyph this c = (FontFace_GetGlyph this c, this)"
  | (hit) p where "mutableGlyphList this \<noteq> []" "127 < c" "map_of (mutableGlyphMapping_' this) c = Some p"
      "GetGlyph this c = (Some (FontGlyph.truncate (mutableGlyphs this p)),
         this\<lparr>mutableGlyphList := p # remove1 p (mutableGlyphList this)\<rparr>)"
  | (noface) "mutableGlyphList this \<noteq> []" "127 < c" "face_' this = None"
      "GetGlyph this c = (None, this)"
  | (fail) face where "mutableGlyphList this \<noteq> []" "127 < c" "map_of (mutableGlyphMapping_' this) c = None"
      "face_' this = Some face" "FT_Load_Char face (ucast c) = None"
      "GetGlyph this c = (None, this\<lparr>ft_load_char_calls := c # ft_load_char_calls this\<rparr>)"
  | (miss) face slot where "mutableGlyphList this \<noteq> []" "127 < c" "map_of (mutableGlyphMapping_' this) c = None"
      "face_' this = Some face" "FT_Load_Char face (ucast c) = Some slot"
proof (cases "mutableGlyphList this = [] \<or> c \<le> 127")
  case True
  then show ?thesis using static [OF _ GetGlyph_static] by blast
next
  case False
  then have ne: "mutableGlyphList this \<noteq> []" and c: "127 < c" by (simp_all add: not_le)
  show ?thesis
  proof (cases "map_of (mutableGlyphMapping_' this) c")
    case (Some p)
    then show ?thesis using hit ne c GetGlyph_hit by blast
  next
    case None
    show ?thesis
    proof (cases "face_' this")
      case nf: None
      show ?thesis using noface [OF ne c nf GetGlyph_noface [OF ne c None nf]] .
    next
      case (Some face)
      show ?thesis
      proof (cases "FT_Load_Char face (ucast c)")
        case f: None
        show ?thesis using fail [OF ne c None Some f GetGlyph_miss_fail [OF ne c None Some f]] .
      next
        case ok: (Some slot)
        show ?thesis using miss [OF ne c None Some ok] .
      qed
    qed
  qed
qed


lemma GetGlyph_frame:
  "glyphMapping_' (snd (GetGlyph this c)) = glyphMapping_' this"
  "face_' (snd (GetGlyph this c)) = face_' this"
  "kerningMapping_' (snd (GetGlyph this c)) = kerningMapping_' this"
proof -
  have "glyphMapping_' (snd (GetGlyph this c)) = glyphMapping_' this
    \<and> face_' (snd (GetGlyph this c)) = face_' this
    \<and> kerningMapping_' (snd (GetGlyph this c)) = kerningMapping_' this"
  proof (cases rule: GetGlyph_cases [of this c])
    case (miss face slot)
    show ?thesis by (simp add: GetGlyph_miss [OF miss])
  qed simp_all
  then show "glyphMapping_' (snd (GetGlyph this c)) = glyphMapping_' this"
    "face_' (snd (GetGlyph this c)) = face_' this"
    "kerningMapping_' (snd (GetGlyph this c)) = kerningMapping_' this"
    by simp_all
qed







lemma Load_new_result:
  assumes "Load env (FontFaceTTF_new pointSize raw) fontData = Some (Inr f)"
  obtains face where "CreateFace env fontData pointSize = Some face"
    and "Load_face env face (FontFaceTTF_new pointSize raw) = Some (Inr f)"
  using assms
  by (auto simp: Load_def FontFaceTTF_new_def split: if_splits option.splits)



lemma GetGlyphs_glyphMapping: "glyphMapping_' (snd (GetGlyphs this cs)) = glyphMapping_' this"
  by (induction cs arbitrary: this) (simp_all add: case_prod_beta GetGlyph_frame)



subsection \<open>The glyph table and the dynamic cache in use\<close>

lemma test_cjk_Load:
  "Load (test_engine test_cjk_face) (FontFaceTTF_new 10 test_raw) [0, 1, 0, 0] = Some (Inr test_cjk_loaded)"
  by (simp add: test_cjk_loaded_def test_cjk_face_def eval_defs allocate_mutable_glyphs.simps)

lemma test_cjk_partial:
  "\<exists>st this3. Load_glyphs_and_texture (test_engine test_cjk_face) test_cjk_face (FontFaceTTF_new 10 test_raw)
     = Inr (False, st, this3)"
  by (simp add: test_cjk_face_def eval_defs)

lemma test_cjk_loaded_fields:
  "mutableGlyphList test_cjk_loaded = [3, 2, 1, 0]"
  "mutableGlyphMapping_' test_cjk_loaded = []"
  "face_' test_cjk_loaded = Some test_cjk_face"
  "ft_load_char_calls test_cjk_loaded = []"
  "glyphMapping_' test_cjk_loaded =
     [(65, \<lparr>x_' = 0, y_' = 0, width_' = 2, height_' = 2, offsetX_' = 1, offsetY_' = 14,
            advanceX_' = 4, page_' = 0\<rparr>)]"
  by (simp_all add: test_cjk_loaded_def test_cjk_face_def eval_defs allocate_mutable_glyphs.simps)

text \<open>
  C9: on a miss of the dynamic cache whose rasterization fails, \<^verbatim>\<open>GetGlyph\<close> returns
  null, and the face is as before except for the record of the \<^verbatim>\<open>FT_Load_Char\<close> call:
  the order of the cells, the mapping, every cell and the texture uploads are unchanged.
\<close>

theorem C9_miss_rasterize_failure:
  assumes "mutableGlyphList this \<noteq> []" and "127 < c"
    and "map_of (mutableGlyphMapping_' this) c = None"
    and "face_' this = Some face"
    and "FT_Load_Char face (ucast c) = None"
  shows "GetGlyph this c = (None, this\<lparr>ft_load_char_calls := c # ft_load_char_calls this\<rparr>)
     \<and> mutableGlyphList (snd (GetGlyph this c)) = mutableGlyphList this
     \<and> mutableGlyphMapping_' (snd (GetGlyph this c)) = mutableGlyphMapping_' this
     \<and> mutableGlyphs (snd (GetGlyph this c)) = mutableGlyphs this
     \<and> textures_' (snd (GetGlyph this c)) = textures_' this"
  using assms by (simp add: GetGlyph_def MAX_ASCII_CODE_def not_le [symmetric])

theorem C9_miss_rasterize_failure_witness:
  "GetGlyph test_cjk_loaded 0x9F99
     = (None, test_cjk_loaded\<lparr>ft_load_char_calls := [0x9F99]\<rparr>)
   \<and> mutableGlyphList (snd (GetGlyph test_cjk_loaded 0x9F99)) = [3, 2, 1, 0]
   \<and> mutableGlyphMapping_' (snd (GetGlyph test_cjk_loaded 0x9F99)) = []
   \<and> mutableGlyphs (snd (GetGlyph test_cjk_loaded 0x9F99)) = mutableGlyphs test_cjk_loaded
   \<and> textures_' (snd (GetGlyph test_cjk_loaded 0x9F99)) = textures_' test_cjk_loaded"
proof -
  have "FT_Load_Char test_cjk_face (ucast (0x9F99 :: unsigned)) = None"
    by (simp add: test_cjk_face_def test_face_def)
  from C9_miss_rasterize_failure [of test_cjk_loaded "0x9F99" test_cjk_face, OF _ _ _ _ this]
  show ?thesis by (simp add: test_cjk_loaded_fields)
qed








text \<open>
  C8: in the full-coverage population pass, when rendering a character's glyph fails,
  the pass does not abort: it records the all-zero glyph under the character code,
  leaves the allocator and the pixels alone, and goes on with the next character.
\<close>

theorem C8_rasterize_failure_placeholder:
  assumes "glyphIndex \<noteq> 0"
    and "FT_Load_Glyph face glyphIndex FT_LOAD_RENDER = None"
  shows "load_glyphs face True hasKerning texWidth ((charCode, glyphIndex) # rest) st =
           load_glyphs face True hasKerning texWidth rest
             (if hasKerning
              then (set_glyph (ucast charCode) zero_glyph st)
                     \<lparr>ls_glyphIndexToCharCodeMapping :=
                        AList.update glyphIndex (ucast charCode) (ls_glyphIndexToCharCodeMapping st)\<rparr>
              else set_glyph (ucast charCode) zero_glyph st)
     \<and> FontFace_GetGlyph (ls_this (set_glyph (ucast charCode) zero_glyph st)) (ucast charCode)
         = Some zero_glyph
     \<and> ls_allocator (set_glyph (ucast charCode) zero_glyph st) = ls_allocator st
     \<and> ls_texData (set_glyph (ucast charCode) zero_glyph st) = ls_texData st
     \<and> width_' zero_glyph = 0 \<and> height_' zero_glyph = 0 \<and> offsetX_' zero_glyph = 0
     \<and> offsetY_' zero_glyph = 0 \<and> advanceX_' zero_glyph = 0"
  using assms
  by (simp add: load_glyph_def set_glyph_def FontFace_GetGlyph_def update_conv' zero_glyph_def)

theorem C8_rasterize_failure_placeholder_witness:
  "load_glyphs test_broken_glyph_face True False 128 [(66, 37), (67, 38)]
      \<lparr>ls_this = test_raw, ls_allocator = AreaAllocator_new 128 128 128 128,
       ls_texData = replicate 16384 0, ls_glyphIndexToCharCodeMapping = []\<rparr>
    = load_glyphs test_broken_glyph_face True False 128 [(67, 38)]
        (set_glyph 66 zero_glyph
          \<lparr>ls_this = test_raw, ls_allocator = AreaAllocator_new 128 128 128 128,
           ls_texData = replicate 16384 0, ls_glyphIndexToCharCodeMapping = []\<rparr>)
   \<and> (case Load (test_engine test_broken_glyph_face) (FontFaceTTF_new 12 test_raw) [0, 1, 0, 0] of
         Some (Inr f) \<Rightarrow>
           map (\<lambda>c. map_option (\<lambda>g. (sint (width_' g), sint (height_' g), sint (advanceX_' g)))
                      (fst (GetGlyph f c))) [65, 66, 67]
             = [Some (2, 2, 4), Some (0, 0, 0), Some (2, 2, 4)]
       | _ \<Rightarrow> False)"
proof -
  have f: "FT_Load_Glyph test_broken_glyph_face 37 FT_LOAD_RENDER = None"
    by (simp add: test_broken_glyph_face_def test_face_def)
  have n: "(37 :: FT_UInt) \<noteq> 0" by simp
  have L: "(case Load (test_engine test_broken_glyph_face) (FontFaceTTF_new 12 test_raw) [0, 1, 0, 0] of
         Some (Inr f) \<Rightarrow>
           map (\<lambda>c. map_option (\<lambda>g. (sint (width_' g), sint (height_' g), sint (advanceX_' g)))
                      (fst (GetGlyph f c))) [65, 66, 67]
             = [Some (2, 2, 4), Some (0, 0, 0), Some (2, 2, 4)]
       | _ \<Rightarrow> False)"
    by (simp add: test_broken_glyph_face_def eval_defs GetGlyph_def FontFace_GetGlyph_def)
  from C8_rasterize_failure_placeholder [OF n f, of False 128 66 "[(67, 38)]"
     "\<lparr>ls_this = test_raw, ls_allocator = AreaAllocator_new 128 128 128 128,
       ls_texData = replicate 16384 0, ls_glyphIndexToCharCodeMapping = []\<rparr>"] L
  show ?thesis by simp
qed

text \<open>
  C10: for a face that \<^verbatim>\<open>Load\<close> produced with \<^verbatim>\<open>loadAllGlyphs\<close> false, in any state
  reached by \<^verbatim>\<open>GetGlyph\<close> calls, \<^verbatim>\<open>GetGlyph(127)\<close> returns null.
\<close>

theorem C10_code_127_null:
  assumes "Load env (FontFaceTTF_new pointSize raw) fontData = Some (Inr f)"
    and "CreateFace env fontData pointSize = Some face"
    and "Load_glyphs_and_texture env face (FontFaceTTF_new pointSize raw) = Inr (False, st, this3)"
  shows "fst (GetGlyph (snd (GetGlyphs f cs)) 127) = None"
proof -
  from assms(1) obtain face' where "CreateFace env fontData pointSize = Some face'"
    and "Load_face env face' (FontFaceTTF_new pointSize raw) = Some (Inr f)"
    by (rule Load_new_result)
  with assms(2) have L: "Load_face env face (FontFaceTTF_new pointSize raw) = Some (Inr f)" by simp
  have "map_of (glyphMapping_' f) 127 = map_of (glyphMapping_' (FontFaceTTF_new pointSize raw)) 127"
    by (rule Load_face_result(3) [OF L _ _ assms(3)]) (simp_all add: FontFaceTTF_new_def)
  then have "map_of (glyphMapping_' f) 127 = None" by (simp add: FontFaceTTF_new_def)
  then have "FontFace_GetGlyph (snd (GetGlyphs f cs)) 127 = None"
    by (simp add: FontFace_GetGlyph_def GetGlyphs_glyphMapping)
  then show ?thesis by (simp add: GetGlyph_static)
qed

theorem C10_code_127_null_witness:
  "Load (test_engine test_cjk_face) (FontFaceTTF_new 10 test_raw) [0, 1, 0, 0] = Some (Inr test_cjk_loaded)
   \<and> (127, 41) \<in> set (FT_Chars test_cjk_face)
   \<and> mutableGlyphList test_cjk_loaded = [3, 2, 1, 0]
   \<and> fst (GetGlyph test_cjk_loaded 127) = None
   \<and> fst (GetGlyph (snd (GetGlyphs test_cjk_loaded [0x4E2D, 127, 65])) 127) = None"
proof -
  obtain st this3 where p: "Load_glyphs_and_texture (test_engine test_cjk_face) test_cjk_face
      (FontFaceTTF_new 10 test_raw) = Inr (False, st, this3)"
    using test_cjk_partial by blast
  have c: "CreateFace (test_engine test_cjk_face) [0, 1, 0, 0] 10 = Some test_cjk_face"
    by (simp add: test_engine_def)
  have ch: "(127, 41) \<in> set (FT_Chars test_cjk_face)"
    by (simp add: test_cjk_face_def test_face_def)
  from C10_code_127_null [OF test_cjk_Load c p, of "[]"]
    C10_code_127_null [OF test_cjk_Load c p, of "[0x4E2D, 127, 65]"] test_cjk_Load ch
  show ?thesis by (simp add: test_cjk_loaded_fields)
qed

end
